theory Spec2Isabelle
  imports Complex_Main "HOL-Library.Multiset" "HOL-Library.List_Lexorder"
begin

section \<open>JavaScript strings\<close>

text \<open>
  A JavaScript string is a sequence of UTF-16 code units. The source works on Korean as
  well as Latin text (the Hangul syllables U+AC00 to U+D7A3 are single code units), so a
  string is modelled as the list of its code units, not as a list of 8-bit characters.
  \<open>ustr\<close> writes an ASCII literal as such a list.
\<close>

type_synonym jsstring = "nat list"

definition ustr :: "string \<Rightarrow> jsstring" where
  "ustr s = map of_char s"

text \<open>
  \<open>String.prototype.toLowerCase\<close>: the model lowers the ASCII letters \<open>A\<close> to \<open>Z\<close> and
  leaves every other code unit as it is (Hangul has no case; the case mappings of other
  scripts are not modelled).
\<close>

definition toLowerUnit :: "nat \<Rightarrow> nat" where
  "toLowerUnit c = (if 65 \<le> c \<and> c \<le> 90 then c + 32 else c)"

definition toLowerCase :: "jsstring \<Rightarrow> jsstring" where
  "toLowerCase s = map toLowerUnit s"

text \<open>\<open>hay.startsWith(needle)\<close> and \<open>hay.includes(needle)\<close>.\<close>

definition startsWith :: "jsstring \<Rightarrow> jsstring \<Rightarrow> bool" where
  "startsWith hay needle = (take (length needle) hay = needle)"

fun js_includes :: "jsstring \<Rightarrow> jsstring \<Rightarrow> bool" where
  "js_includes [] needle = (needle = [])"
| "js_includes (c # cs) needle = (startsWith (c # cs) needle \<or> js_includes cs needle)"

text \<open>\<open>parts.join(sep)\<close>.\<close>

fun join :: "jsstring \<Rightarrow> jsstring list \<Rightarrow> jsstring" where
  "join sep [] = []"
| "join sep [x] = x"
| "join sep (x # y # ys) = x @ sep @ join sep (y # ys)"

text \<open>\<open>String(n)\<close> for a non-negative integer: its decimal digits.\<close>

fun digits :: "nat \<Rightarrow> nat \<Rightarrow> jsstring" where
  "digits 0 n = []"
| "digits (Suc fuel) n =
     (if n < 10 then [48 + n] else digits fuel (n div 10) @ [48 + n mod 10])"

definition showNat :: "nat \<Rightarrow> jsstring" where
  "showNat n = digits (Suc n) n"


section \<open>The review summarizer: data\<close>

text \<open>
  The summarizer module (the second half of \<open>src/unnamed/part_003\<close>) keeps module-level
  references that the server injects: the insight list, the feedback history and the
  override list (each \<open>null\<close> until \<open>initialize\<close> is called, hence \<open>option\<close>), and a cache
  \<open>Map\<close> from product code to the last analysis.
\<close>

text \<open>
  A summary value is whatever the JSON holds under \<open>summary\<close>: nothing, a string, or an
  object with the localized fields \<open>ko\<close> and \<open>en\<close>. (\<open>null\<close> is not modelled.)
\<close>

datatype summary_val =
    SUndef
  | SStr jsstring
  | SObj (ko: summary_val) (en: summary_val)

fun truthy :: "summary_val \<Rightarrow> bool" where
  "truthy SUndef = False"
| "truthy (SStr s) = (s \<noteq> [])"
| "truthy (SObj k e) = True"

record sentiment =
  positiveRatio :: int
  negativeRatio :: int

record review =
  rid :: nat
  platform :: string
  externalId :: jsstring
  title :: "jsstring option"
  description :: "jsstring option"
  status :: string
  matchedProducts :: "(jsstring \<times> int) list"

record override =
  ovProductCode :: jsstring
  ovSummary :: summary_val
  ovHashtags :: "jsstring list option"
  ovSentiment :: "sentiment option"
  direction :: "jsstring option"
  updatedAt :: "int option"

record product_insight =
  piProductCode :: jsstring
  insights :: "jsstring option"
  piSummary :: summary_val
  piHashtags :: "jsstring list option"
  piSentiment :: "sentiment option"
  reviewIds :: "nat list"
  lastAnalyzedAt :: "int option"
  version :: "nat option"

record feedback_record =
  fbProductCode :: jsstring
  originalSummary :: jsstring
  correctedSummary :: jsstring
  createdAt :: int

text \<open>
  The reply of the AI collaborator after \<open>JSON.parse\<close>. A request that fails (network,
  authentication) and a reply that does not parse both throw; they are the one value
  \<open>AiFailure\<close>. Every JSON text parses, though, not only the object the prompt asks for:
  \<^item> \<open>null\<close>, on which the first property access, \<open>result.updatedInsights\<close>, throws;
  \<^item> a number, a string, a boolean or an array, on which the accesses \<open>result.summary\<close>,
    \<open>result.hashtags\<close>, \<open>result.sentiment\<close> and \<open>result.updatedInsights\<close> give
    \<open>undefined\<close>; of such a value the module reads nothing but whether it is truthy
    (\<open>0\<close>, \<open>false\<close> and the empty string are not);
  \<^item> an object, with the fields \<open>summary\<close>, \<open>hashtags\<close>, \<open>sentiment\<close> and
    \<open>updatedInsights\<close>, each of which may be missing. Fields that are present are taken
    to have the types the prompt asks for.
\<close>

record ai_result =
  arSummary :: summary_val
  arHashtags :: "jsstring list option"
  arSentiment :: "sentiment option"
  updatedInsights :: "jsstring option"

datatype ai_value = AiObject ai_result | AiOther bool

fun valueTruthy :: "ai_value \<Rightarrow> bool" where
  "valueTruthy (AiObject result) = True"
| "valueTruthy (AiOther b) = b"

datatype ai_reply = AiFailure | AiNull | AiJson ai_value

record cache_entry =
  ceSummary :: ai_value
  analyzedReviewIds :: jsstring
  timestamp :: int

record summarizer_state =
  productInsightsRef :: "product_insight list option"
  aiFeedbackHistoryRef :: "feedback_record list option"
  snsReviewOverridesRef :: "override list option"
  analysisCache :: "jsstring \<rightharpoonup> cache_entry"
  aiCalls :: nat

text \<open>
  \<open>aiCalls\<close> is not a variable of the source: it counts the requests sent through
  \<open>anthropicClient.messages.create\<close>, so that theorems can speak about them.

  What a call reads from outside the module: the provider setting and whether the client
  was built, the clock (\<open>Date.now()\<close> when the call starts and when an analysis
  completes), and the reply the collaborator gives if it is asked.
\<close>

record env =
  AI_PROVIDER :: string
  anthropicClient :: bool
  now :: int
  completedAt :: int
  aiReply :: ai_reply

definition CACHE_TTL :: int where
  "CACHE_TTL = 30 * 60 * 1000"

text \<open>
  The payload \<open>getSummary\<close> returns. The branches build objects of different shapes;
  the record has the union of their fields, absent ones being \<open>None\<close>.
\<close>

record summary_result =
  rsSummary :: summary_val
  rsHashtags :: "jsstring list option"
  rsSentiment :: "sentiment option"
  reviewCount :: "nat option"
  aiProvider :: string
  analyzedAt :: "int option"
  overriddenAt :: "int option"
  rsUpdatedInsights :: "jsstring option"

text \<open>The keyword fallback is a callback; its result may carry localized summaries and
  hashtag objects, which \<open>getSummary\<close> normalizes.\<close>

datatype kw_tag = TagStr jsstring | TagObj (displayTag: "jsstring option") (tag: "jsstring option")

record kw_result =
  kwSummary :: summary_val
  kwHashtags :: "kw_tag list option"
  kwSentiment :: "sentiment option"
  kwReviewCount :: "nat option"


section \<open>The review summarizer: operations\<close>

definition isClaudeAvailable :: "env \<Rightarrow> bool" where
  "isClaudeAvailable e = (AI_PROVIDER e = ''claude'' \<and> anthropicClient e)"

definition getProductInsights :: "summarizer_state \<Rightarrow> jsstring \<Rightarrow> product_insight option" where
  "getProductInsights st productCode =
     (case productInsightsRef st of
        None \<Rightarrow> None
      | Some ins \<Rightarrow> find (\<lambda>i. piProductCode i = productCode) ins)"

text \<open>
  The cache fingerprint \<open>ids.sort().join(',')\<close>: \<open>sort\<close> without a comparator orders the
  ids by their decimal strings, compared code unit by code unit.
\<close>

definition fingerprint :: "nat list \<Rightarrow> jsstring" where
  "fingerprint ids = join (ustr '','') (sort (map showNat ids))"

text \<open>\<open>h.replace(/^#/, '')\<close>.\<close>

definition stripHash :: "jsstring \<Rightarrow> jsstring" where
  "stripHash h = (case h of [] \<Rightarrow> [] | c # cs \<Rightarrow> if c = 35 then cs else h)"

text \<open>
  \<open>analyzeWithClaude\<close>. The prompts it assembles decide what is sent, not what the module
  does with the reply, and are not modelled. \<open>Inl ()\<close> is a thrown error. The three
  time stamps taken after the reply are all read as \<open>completedAt\<close>.
\<close>

definition updateInsights ::
  "env \<Rightarrow> summarizer_state \<Rightarrow> review list \<Rightarrow> jsstring \<Rightarrow> ai_result \<Rightarrow> summarizer_state"
where
  "updateInsights e st1 reviews productCode result =
     (case (updatedInsights result, productInsightsRef st1) of
        (Some ui, Some ins) \<Rightarrow>
          if ui = [] then st1
          else
            let existing = find (\<lambda>i. piProductCode i = productCode) ins;
                insightData = \<lparr>
                  piProductCode = productCode,
                  insights = Some ui,
                  piSummary = SObj SUndef (arSummary result),
                  piHashtags = Some (case arHashtags result of None \<Rightarrow> [] | Some hs \<Rightarrow> hs),
                  piSentiment = Some (case arSentiment result of
                       None \<Rightarrow> \<lparr>positiveRatio = 0, negativeRatio = 0\<rparr> | Some s \<Rightarrow> s),
                  reviewIds = map rid reviews,
                  lastAnalyzedAt = Some (completedAt e),
                  version = Some (case existing of
                       None \<Rightarrow> 1
                     | Some old \<Rightarrow> (case version old of None \<Rightarrow> 0 | Some v \<Rightarrow> v) + 1)\<rparr>
            in st1\<lparr>productInsightsRef := Some
                 (case existing of
                    None \<Rightarrow> ins @ [insightData]
                  | Some old \<Rightarrow>
                      (let idx = length (takeWhile (\<lambda>i. piProductCode i \<noteq> productCode) ins)
                       in ins[idx := insightData]))\<rparr>
      | _ \<Rightarrow> st1)"

definition analyzeWithClaude ::
  "env \<Rightarrow> summarizer_state \<Rightarrow> review list \<Rightarrow> jsstring \<Rightarrow> (unit + summary_result) \<times> summarizer_state"
where
  "analyzeWithClaude e st reviews productCode =
     (if \<not> anthropicClient e then (Inl (), st)
      else
        let st1 = st\<lparr>aiCalls := aiCalls st + 1\<rparr> in
        case aiReply e of
          AiFailure \<Rightarrow> (Inl (), st1)
        | AiNull \<Rightarrow> (Inl (), st1)
        | AiJson result \<Rightarrow>
            let st2 = (case result of
                         AiObject obj \<Rightarrow> updateInsights e st1 reviews productCode obj
                       | AiOther b \<Rightarrow> st1);
                st3 = st2\<lparr>analysisCache := (analysisCache st2)(productCode \<mapsto>
                      \<lparr>ceSummary = result,
                       analyzedReviewIds = fingerprint (map rid reviews),
                       timestamp = completedAt e\<rparr>)\<rparr>
            in (Inr \<lparr>rsSummary = (case result of AiObject obj \<Rightarrow> arSummary obj | AiOther b \<Rightarrow> SUndef),
                     rsHashtags = Some (map stripHash
                        (case result of
                           AiObject obj \<Rightarrow> (case arHashtags obj of None \<Rightarrow> [] | Some hs \<Rightarrow> hs)
                         | AiOther b \<Rightarrow> [])),
                     rsSentiment = (case result of AiObject obj \<Rightarrow> arSentiment obj | AiOther b \<Rightarrow> None),
                     reviewCount = Some (length reviews),
                     aiProvider = ''claude'',
                     analyzedAt = Some (completedAt e),
                     overriddenAt = None,
                     rsUpdatedInsights = None\<rparr>, st3))"

text \<open>\<open>getCachedAnalysis\<close>: an entry older than the TTL is deleted; an entry for another
  set of review ids is left alone. \<open>None\<close> is the \<open>null\<close> of a miss; a hit returns the
  cached value, whatever it is.\<close>

definition getCachedAnalysis ::
  "env \<Rightarrow> summarizer_state \<Rightarrow> jsstring \<Rightarrow> nat list \<Rightarrow> ai_value option \<times> summarizer_state"
where
  "getCachedAnalysis e st productCode currentReviewIds =
     (case analysisCache st productCode of
        None \<Rightarrow> (None, st)
      | Some cached \<Rightarrow>
          if now e - timestamp cached > CACHE_TTL
          then (None, st\<lparr>analysisCache := (analysisCache st)(productCode := None)\<rparr>)
          else if analyzedReviewIds cached \<noteq> fingerprint currentReviewIds then (None, st)
          else (Some (ceSummary cached), st))"

definition normalizeKwSummary :: "summary_val \<Rightarrow> summary_val" where
  "normalizeKwSummary s =
     (case s of
        SObj k e' \<Rightarrow> if truthy e' then e' else if truthy k then k else SStr []
      | _ \<Rightarrow> if truthy s then s else SStr [])"

definition normalizeKwTag :: "kw_tag \<Rightarrow> jsstring" where
  "normalizeKwTag h =
     (case h of
        TagStr s \<Rightarrow> s
      | TagObj d t \<Rightarrow>
          (case d of
             Some ds \<Rightarrow> if ds \<noteq> [] then ds else (case t of Some ts \<Rightarrow> ts | None \<Rightarrow> [])
           | None \<Rightarrow> (case t of Some ts \<Rightarrow> ts | None \<Rightarrow> [])))"

text \<open>
  \<open>getSummary\<close> resolves in five steps. Step 1 looks for an override
  (\<open>snsReviewOverridesRef.find\<close>, when the reference is set).
\<close>

definition overrideFor :: "summarizer_state \<Rightarrow> jsstring \<Rightarrow> override option" where
  "overrideFor st productCode =
     (case snsReviewOverridesRef st of
        None \<Rightarrow> None
      | Some ovs \<Rightarrow> find (\<lambda>v. ovProductCode v = productCode) ovs)"

definition overridePayload :: "override \<Rightarrow> review list \<Rightarrow> summary_result" where
  "overridePayload ov approvedReviews =
     \<lparr>rsSummary = ovSummary ov,
      rsHashtags = Some (case ovHashtags ov of None \<Rightarrow> [] | Some hs \<Rightarrow> hs),
      rsSentiment = Some (case ovSentiment ov of
           None \<Rightarrow> \<lparr>positiveRatio = 0, negativeRatio = 0\<rparr> | Some s \<Rightarrow> s),
      reviewCount = Some (length approvedReviews),
      aiProvider = ''override'',
      analyzedAt = None,
      overriddenAt = updatedAt ov,
      rsUpdatedInsights = None\<rparr>"

text \<open>
  Step 2, the block guarded by \<open>isClaudeAvailable() && approvedReviews.length > 0\<close>: the
  cached analysis if \<open>getCachedAnalysis\<close> returns a truthy value (the test is
  \<open>if (cached)\<close>), else a fresh analysis. \<open>Some r\<close> is a \<open>return r\<close>; \<open>None\<close> means that
  control reaches step 3, either because the guard is false or because the \<open>catch\<close>
  swallowed an error. The cached payload spreads the cached value; a value that is not an
  object has none of the fields read here.
\<close>

definition cachedPayload :: "ai_value \<Rightarrow> review list \<Rightarrow> summary_result" where
  "cachedPayload cached approvedReviews =
     \<lparr>rsSummary = (case cached of AiObject obj \<Rightarrow> arSummary obj | AiOther b \<Rightarrow> SUndef),
      rsHashtags = (case cached of AiObject obj \<Rightarrow> arHashtags obj | AiOther b \<Rightarrow> None),
      rsSentiment = (case cached of AiObject obj \<Rightarrow> arSentiment obj | AiOther b \<Rightarrow> None),
      reviewCount = Some (length approvedReviews),
      aiProvider = ''claude-cached'',
      analyzedAt = None,
      overriddenAt = None,
      rsUpdatedInsights = (case cached of AiObject obj \<Rightarrow> updatedInsights obj | AiOther b \<Rightarrow> None)\<rparr>"

definition tryAnalyze ::
  "env \<Rightarrow> summarizer_state \<Rightarrow> review list \<Rightarrow> jsstring \<Rightarrow> summary_result option \<times> summarizer_state"
where
  "tryAnalyze e st approvedReviews productCode =
     (case analyzeWithClaude e st approvedReviews productCode of
        (Inr r, sta) \<Rightarrow> (Some r, sta)
      | (Inl _, sta) \<Rightarrow> (None, sta))"

definition claudeStep ::
  "env \<Rightarrow> summarizer_state \<Rightarrow> jsstring \<Rightarrow> review list \<Rightarrow> summary_result option \<times> summarizer_state"
where
  "claudeStep e st productCode approvedReviews =
     (if isClaudeAvailable e \<and> length approvedReviews > 0
      then
        (case getCachedAnalysis e st productCode (map rid approvedReviews) of
           (Some cached, stc) \<Rightarrow>
             if valueTruthy cached
             then (Some (cachedPayload cached approvedReviews), stc)
             else tryAnalyze e stc approvedReviews productCode
         | (None, stc) \<Rightarrow> tryAnalyze e stc approvedReviews productCode)
      else (None, st))"

text \<open>Steps 3 to 5: the stored insight, the keyword fallback, the empty payload.\<close>

definition emptyPayload :: summary_result where
  "emptyPayload =
     \<lparr>rsSummary = SStr [],
      rsHashtags = Some [],
      rsSentiment = Some \<lparr>positiveRatio = 0, negativeRatio = 0\<rparr>,
      reviewCount = Some 0,
      aiProvider = ''none'',
      analyzedAt = None,
      overriddenAt = None,
      rsUpdatedInsights = None\<rparr>"

definition fallbackSteps ::
  "summarizer_state \<Rightarrow> jsstring \<Rightarrow> review list \<Rightarrow> (review list \<Rightarrow> kw_result) option
     \<Rightarrow> summary_result"
where
  "fallbackSteps st productCode approvedReviews keywordFallback =
     (case (case getProductInsights st productCode of
              None \<Rightarrow> None
            | Some ei \<Rightarrow> if truthy (piSummary ei) then Some ei else None) of
        Some ei \<Rightarrow>
          \<lparr>rsSummary = (case piSummary ei of
                 SObj k e' \<Rightarrow> if truthy e' then e' else piSummary ei
               | s \<Rightarrow> s),
            rsHashtags = Some (case piHashtags ei of None \<Rightarrow> [] | Some hs \<Rightarrow> hs),
            rsSentiment = Some (case piSentiment ei of
                 None \<Rightarrow> \<lparr>positiveRatio = 0, negativeRatio = 0\<rparr> | Some s \<Rightarrow> s),
            reviewCount = Some (length approvedReviews),
            aiProvider = ''insights-cached'',
            analyzedAt = lastAnalyzedAt ei,
            overriddenAt = None,
            rsUpdatedInsights = None\<rparr>
      | None \<Rightarrow>
          (case (if length approvedReviews > 0 then keywordFallback else None) of
             Some kf \<Rightarrow>
               (let kwResult = kf approvedReviews in
                \<lparr>rsSummary = normalizeKwSummary (kwSummary kwResult),
                 rsHashtags = Some (filter (\<lambda>h. h \<noteq> [])
                    (map normalizeKwTag
                       (case kwHashtags kwResult of None \<Rightarrow> [] | Some hs \<Rightarrow> hs))),
                 rsSentiment = kwSentiment kwResult,
                 reviewCount = kwReviewCount kwResult,
                 aiProvider = ''keyword'',
                 analyzedAt = None,
                 overriddenAt = None,
                 rsUpdatedInsights = None\<rparr>)
           | None \<Rightarrow> emptyPayload))"

text \<open>
  \<open>getSummary\<close>: override, then Claude (cache first), then the stored insight, the
  keyword fallback and the empty payload.
\<close>

definition getSummary ::
  "env \<Rightarrow> summarizer_state \<Rightarrow> jsstring \<Rightarrow> review list \<Rightarrow> (review list \<Rightarrow> kw_result) option
     \<Rightarrow> summary_result \<times> summarizer_state"
where
  "getSummary e st productCode approvedReviews keywordFallback =
     (case overrideFor st productCode of
        Some ov \<Rightarrow> (overridePayload ov approvedReviews, st)
      | None \<Rightarrow>
          (case claudeStep e st productCode approvedReviews of
             (Some r, st1) \<Rightarrow> (r, st1)
           | (None, st1) \<Rightarrow> (fallbackSteps st1 productCode approvedReviews keywordFallback, st1)))"

text \<open>When the cached analysis of a product was stored, if it has one.\<close>

definition cachedAt :: "summarizer_state \<Rightarrow> jsstring \<Rightarrow> int option" where
  "cachedAt st productCode = map_option timestamp (analysisCache st productCode)"

text \<open>
  \<open>recordFeedback\<close>: append the record; if the product then has more than ten, delete the
  first of them (\<open>indexOf\<close> of the product's first record, then \<open>splice\<close>). Without a
  history reference the call does nothing.
\<close>

definition recordFeedback ::
  "summarizer_state \<Rightarrow> jsstring \<Rightarrow> jsstring \<Rightarrow> jsstring \<Rightarrow> int \<Rightarrow> summarizer_state"
where
  "recordFeedback st productCode original corrected stamp =
     (case aiFeedbackHistoryRef st of
        None \<Rightarrow> st
      | Some hist \<Rightarrow>
          let hist1 = hist @ [\<lparr>fbProductCode = productCode, originalSummary = original,
                               correctedSummary = corrected, createdAt = stamp\<rparr>];
              productFeedbacks = filter (\<lambda>f. fbProductCode f = productCode) hist1
          in if length productFeedbacks > 10
             then (case productFeedbacks of
                     oldest # _ \<Rightarrow> st\<lparr>aiFeedbackHistoryRef := Some (remove1 oldest hist1)\<rparr>
                   | [] \<Rightarrow> st\<lparr>aiFeedbackHistoryRef := Some hist1\<rparr>)
             else st\<lparr>aiFeedbackHistoryRef := Some hist1\<rparr>)"

text \<open>The feedback a product has, in stored order.\<close>

definition feedbackOf :: "summarizer_state \<Rightarrow> jsstring \<Rightarrow> feedback_record list" where
  "feedbackOf st productCode =
     (case aiFeedbackHistoryRef st of
        None \<Rightarrow> []
      | Some hist \<Rightarrow> filter (\<lambda>f. fbProductCode f = productCode) hist)"

text \<open>Whether the cached analysis of a product, if it has one, is a truthy value.\<close>

definition cachedTruthy :: "summarizer_state \<Rightarrow> jsstring \<Rightarrow> bool" where
  "cachedTruthy st productCode =
     (case analysisCache st productCode of None \<Rightarrow> False | Some c \<Rightarrow> valueTruthy (ceSummary c))"

text \<open>A run of \<open>recordFeedback\<close> calls, the record a call stores, and the last \<open>k\<close>
  entries of a list.\<close>

definition mkFeedback :: "jsstring \<times> jsstring \<times> jsstring \<times> int \<Rightarrow> feedback_record" where
  "mkFeedback c = (case c of (p, orig, corr, t) \<Rightarrow>
     \<lparr>fbProductCode = p, originalSummary = orig, correctedSummary = corr, createdAt = t\<rparr>)"

definition recordFeedbacks ::
  "summarizer_state \<Rightarrow> (jsstring \<times> jsstring \<times> jsstring \<times> int) list \<Rightarrow> summarizer_state" where
  "recordFeedbacks st calls =
     foldl (\<lambda>s c. case c of (p, orig, corr, t) \<Rightarrow> recordFeedback s p orig corr t) st calls"

definition mostRecent :: "nat \<Rightarrow> 'a list \<Rightarrow> 'a list" where
  "mostRecent k xs = drop (length xs - k) xs"


text \<open>A state right after \<open>initialize\<close> with empty lists, and eleven corrections of one product.\<close>

definition freshState :: summarizer_state where
  "freshState = \<lparr>productInsightsRef = Some [], aiFeedbackHistoryRef = Some [],
                 snsReviewOverridesRef = Some [], analysisCache = Map.empty, aiCalls = 0\<rparr>"

definition elevenCalls :: "(jsstring \<times> jsstring \<times> jsstring \<times> int) list" where
  "elevenCalls = map (\<lambda>t. (ustr ''P1'', ustr ''old'', ustr ''new'', int t)) [1..<12]"



section \<open>Hashtags and search queries (\<open>services/youtube.js\<close>)\<close>

text \<open>
  White space as \<open>trim\<close> and the regular expression class \<open>\s\<close> know it.
\<close>

definition isSpace :: "nat \<Rightarrow> bool" where
  "isSpace c = (c \<in> {9, 10, 11, 12, 13, 32, 160, 5760, 8232, 8233, 8239, 8287, 12288, 65279}
                \<or> (8192 \<le> c \<and> c \<le> 8202))"

definition trim :: "jsstring \<Rightarrow> jsstring" where
  "trim s = rev (dropWhile isSpace (rev (dropWhile isSpace s)))"

text \<open>
  \<open>[...new Set(xs)]\<close>: a \<open>Set\<close> keeps an element when it is added for the first time
  and iterates in insertion order. Elements are strings, compared exactly.
\<close>

definition setAdd :: "'a list \<Rightarrow> 'a \<Rightarrow> 'a list" where
  "setAdd seen x = (if x \<in> set seen then seen else seen @ [x])"

definition newSet :: "'a list \<Rightarrow> 'a list" where
  "newSet xs = foldl setAdd [] xs"

record product =
  productCode :: jsstring
  productName :: jsstring
  productSaleStatus :: bool
  detailInfo :: "string option"

text \<open>
  The hashtag pattern \<open>/#([a-zA-Z0-9\<dots>_]+)/g\<close>, whose class also holds the Hangul
  syllables U+AC00 to U+D7A3. \<open>match\<close> with the \<open>g\<close> flag scans from the left: at a \<open>#\<close>
  followed by at least one unit of the class it takes the \<open>#\<close> and the longest run, and
  goes on behind the run; anywhere else it moves on by one unit.
\<close>

definition isTagUnit :: "nat \<Rightarrow> bool" where
  "isTagUnit c = ((97 \<le> c \<and> c \<le> 122) \<or> (65 \<le> c \<and> c \<le> 90) \<or> (48 \<le> c \<and> c \<le> 57)
                  \<or> (44032 \<le> c \<and> c \<le> 55203) \<or> c = 95)"

function hashtagMatches :: "jsstring \<Rightarrow> jsstring list" where
  "hashtagMatches [] = []"
| "hashtagMatches (c # cs) =
     (if c = 35 \<and> takeWhile isTagUnit cs \<noteq> []
      then (c # takeWhile isTagUnit cs) # hashtagMatches (dropWhile isTagUnit cs)
      else hashtagMatches cs)"
  by pat_completeness auto
termination
  by (relation "measure length") (auto simp: length_dropWhile_le le_imp_less_Suc)

text \<open>
  \<open>extractHashtagsFromProduct\<close>. \<open>Buffer.from(\<dots>, 'base64').toString('utf-8')\<close> belongs to
  the platform, not to the repository: it is the parameter \<open>decode\<close>, with \<open>None\<close> when
  it throws. \<open>tag.replace('#', '')\<close> deletes the first \<open>#\<close> of the match.
\<close>

definition extractHashtagsFromProduct ::
  "(string \<Rightarrow> jsstring option) \<Rightarrow> product \<Rightarrow> jsstring list" where
  "extractHashtagsFromProduct decode p =
     (case detailInfo p of
        None \<Rightarrow> []
      | Some blob \<Rightarrow>
          if blob = [] then []
          else (case decode blob of
                  None \<Rightarrow> []
                | Some decodedHtml \<Rightarrow>
                    newSet (map (\<lambda>tag. trim (remove1 35 tag)) (hashtagMatches decodedHtml))))"





section \<open>JavaScript numbers\<close>

text \<open>
  A JavaScript number is an IEEE 754 double. A finite double is modelled by the rational
  number it denotes, and an arithmetic operation of the source by the exact operation
  followed by \<open>fl\<close>, which rounds a rational to the nearest number \<open>m * 2 ^ e\<close> with a
  mantissa of 53 bits, a tie going to the even mantissa. \<open>mantissaExponent\<close> scales a
  positive number into the interval from \<open>2 ^ 52\<close> up to \<open>2 ^ 53\<close> and returns the exponent
  with it. The exponent range is not modelled (no overflow, no subnormal numbers): the
  numbers of this program are keyword weights, counts, and sums, products and quotients
  of a few of them.
\<close>

definition pow2 :: "int \<Rightarrow> rat" where
  "pow2 e = (if 0 \<le> e then 2 ^ nat e else 1 / 2 ^ nat (- e))"

function scaleDown :: "rat \<Rightarrow> int \<Rightarrow> rat \<times> int" where
  "scaleDown m e = (if 2 ^ 53 \<le> m then scaleDown (m / 2) (e + 1) else (m, e))"
  by pat_completeness auto
termination
proof (relation "measure (\<lambda>(m, e). nat \<lfloor>m\<rfloor>)")
  show "wf (measure (\<lambda>(m, e). nat \<lfloor>m\<rfloor>))" by simp
next
  fix m :: rat and e :: int
  assume big: "2 ^ 53 \<le> m"
  have "of_int (\<lfloor>m / 2\<rfloor> + 1) \<le> m / 2 + 1" using of_int_floor_le[of "m / 2"] by simp
  also have "\<dots> \<le> m" using big by simp
  finally have "\<lfloor>m / 2\<rfloor> + 1 \<le> \<lfloor>m\<rfloor>" by (simp only: le_floor_iff)
  moreover have "0 < \<lfloor>m\<rfloor>" using big by (simp add: less_floor_iff)
  ultimately show "((m / 2, e + 1), (m, e)) \<in> measure (\<lambda>(m, e). nat \<lfloor>m\<rfloor>)" by simp
qed

function scaleUp :: "rat \<Rightarrow> int \<Rightarrow> rat \<times> int" where
  "scaleUp m e = (if 0 < m \<and> m < 2 ^ 52 then scaleUp (2 * m) (e - 1) else (m, e))"
  by pat_completeness auto
termination
proof (relation "measure (\<lambda>(m, e). nat \<lfloor>2 ^ 53 / m\<rfloor>)")
  show "wf (measure (\<lambda>(m, e). nat \<lfloor>2 ^ 53 / m\<rfloor>))" by simp
next
  fix m :: rat and e :: int
  assume small: "0 < m \<and> m < 2 ^ 52"
  define y where "y = 2 ^ 53 / m"
  have "2 * m < 2 ^ 53" using small by simp
  then have y2: "2 < y" using small by (simp add: y_def less_divide_eq)
  have half: "2 ^ 53 / (2 * m) = y / 2" by (simp add: y_def)
  have "of_int (\<lfloor>y / 2\<rfloor> + 1) \<le> y / 2 + 1" using of_int_floor_le[of "y / 2"] by simp
  also have "\<dots> \<le> y" using y2 by simp
  finally have "\<lfloor>y / 2\<rfloor> + 1 \<le> \<lfloor>y\<rfloor>" by (simp only: le_floor_iff)
  then have "nat \<lfloor>y / 2\<rfloor> < nat \<lfloor>y\<rfloor>" using y2 by linarith
  then have "nat \<lfloor>2 ^ 53 / (2 * m)\<rfloor> < nat \<lfloor>2 ^ 53 / m\<rfloor>"
    by (simp only: half y_def[symmetric])
  then show "((2 * m, e - 1), (m, e)) \<in> measure (\<lambda>(m, e). nat \<lfloor>2 ^ 53 / m\<rfloor>)"
    by (simp only: in_measure split_conv)
qed

declare scaleDown.simps [simp del] scaleUp.simps [simp del]

definition mantissaExponent :: "rat \<Rightarrow> rat \<times> int" where
  "mantissaExponent x = (case scaleDown x 0 of (m, e) \<Rightarrow> scaleUp m e)"

definition roundHalfEven :: "rat \<Rightarrow> int" where
  "roundHalfEven y =
     (let f = \<lfloor>y\<rfloor>; d = y - of_int f
      in if d < 1 / 2 then f else if 1 / 2 < d then f + 1 else if even f then f else f + 1)"

definition fl :: "rat \<Rightarrow> rat" where
  "fl x = (if x = 0 then 0
           else if x < 0
           then (case mantissaExponent (- x) of (m, e) \<Rightarrow> - (of_int (roundHalfEven m) * pow2 e))
           else (case mantissaExponent x of (m, e) \<Rightarrow> of_int (roundHalfEven m) * pow2 e))"

text \<open>
  \<open>Math.round\<close> gives the nearest integer, a half going upwards; it is exact on the double
  it is given.
\<close>

definition jsRound :: "rat \<Rightarrow> int" where
  "jsRound x = \<lfloor>x + 1 / 2\<rfloor>"


section \<open>Match scores and collection (\<open>services/instagram.js\<close>, \<open>services/snsReviewCollector.js\<close>)\<close>

record video =
  videoId :: jsstring
  vTitle :: jsstring
  vDescription :: jsstring

record post =
  postId :: jsstring
  caption :: "jsstring option"
  username :: jsstring

text \<open>
  The YouTube policy, written inline in \<open>collectYouTubeReviews\<close>: the share of the
  product's hashtags found in the lowered title and description, in percent; failing
  that, 80 when the lowered, trimmed product name occurs; else no match (\<open>None\<close>).
\<close>

definition youtubeMatch :: "jsstring list \<Rightarrow> product \<Rightarrow> video \<Rightarrow> int option" where
  "youtubeMatch hashtags p v =
     (let searchText = toLowerCase (vTitle v @ ustr '' '' @ vDescription v);
          productNameLower = toLowerCase (trim (productName p));
          matchedHashtags = filter (\<lambda>tag. js_includes searchText (toLowerCase tag)) hashtags
      in if length hashtags > 0 \<and> length matchedHashtags > 0
         then Some (jsRound (fl (fl (of_nat (length matchedHashtags) / of_nat (length hashtags)) * 100)))
         else if js_includes searchText productNameLower then Some 80
         else None)"

text \<open>\<open>calculateMatchScore\<close> of \<open>instagram.js\<close>.\<close>

definition reviewKeywords :: "jsstring list" where
  "reviewKeywords =
     [[47532, 48624], ustr ''review'', [54980, 44592], [52628, 52380], ustr ''recommend'',
      [51339, 50500, 50836], ustr ''love'', ustr ''amazing'', ustr ''best'']"

definition calculateMatchScore :: "post \<Rightarrow> product \<Rightarrow> jsstring list \<Rightarrow> int" where
  "calculateMatchScore po p hashtags =
     (let cap = toLowerCase (case caption po of None \<Rightarrow> [] | Some c \<Rightarrow> c);
          matchedHashtags = filter (\<lambda>tag. js_includes cap (35 # toLowerCase tag)
                                          \<or> js_includes cap (toLowerCase tag)) hashtags;
          score1 = min (int (length matchedHashtags) * 20) 60;
          productNameLower = filter (\<lambda>c. \<not> isSpace c) (toLowerCase (productName p));
          score2 = (if js_includes cap productNameLower then score1 + 30 else score1);
          score3 = (if list_ex (\<lambda>kw. js_includes cap (toLowerCase kw)) reviewKeywords
                    then score2 + 10 else score2)
      in score3)"
















section \<open>Keyword analysis (the review summarizer in \<open>services/fedex.js\<close>)\<close>

text \<open>
  The text of a review that both analyses read: \<open>`${review.title || ''} ${review.description || ''}`\<close>.
\<close>

definition reviewText :: "review \<Rightarrow> jsstring" where
  "reviewText r =
     (case title r of None \<Rightarrow> [] | Some t \<Rightarrow> t) @ ustr '' '' @
     (case description r of None \<Rightarrow> [] | Some d \<Rightarrow> d)"

subsection \<open>Dictionary keywords and sentiment\<close>

text \<open>
  \<open>KEYWORD_DICTIONARY\<close> has seven categories, and \<open>aggregateKeywords\<close> treats each in the
  same way. \<open>calculateSentiment\<close> reads the category \<open>sentiment\<close> only, so this is the
  category modelled: its entries in source order, each with its weight and polarity (the
  translated form \<open>en\<close> is left out). A weight is written here as the decimal literal
  of the source (\<open>0.8\<close> is \<open>4 / 5\<close>); the number that the program holds is the double
  nearest to it, \<open>fl (4 / 5)\<close>.
\<close>

datatype polarity = Positive | Negative | Neutral

definition sentimentKeywords :: "(jsstring \<times> rat \<times> polarity) list" where
  "sentimentKeywords =
    [([51339, 50500, 50836], 1, Positive), ([52572, 44256], 1, Positive),
     ([44053, 52628], 1, Positive), ([52628, 52380], 4 / 5, Positive),
     ([47564, 51313], 1, Positive), ([45824, 48149], 1, Positive), ([51697], 1, Positive),
     ([51064, 49373, 53596], 1, Positive), ([51116, 44396, 47588], 1, Positive),
     ([44051, 49457, 48708], 6 / 5, Positive), ([44032, 49457, 48708], 11 / 10, Positive),
     ([46272, 54532], 11 / 10, Positive), ([48148, 51060, 47092], 11 / 10, Positive),
     ([54635, 53596], 11 / 10, Positive), (ustr ''amazing'', 1, Positive),
     (ustr ''love'', 1, Positive), (ustr ''best'', 1, Positive),
     (ustr ''recommend'', 4 / 5, Positive), (ustr ''great'', 4 / 5, Positive),
     (ustr ''holy grail'', 6 / 5, Positive), (ustr ''hg'', 6 / 5, Positive),
     (ustr ''dupe'', 6 / 5, Positive), (ustr ''worth the hype'', 6 / 5, Positive),
     (ustr ''game-changer'', 6 / 5, Positive), (ustr ''game changer'', 6 / 5, Positive),
     (ustr ''must-have'', 11 / 10, Positive), (ustr ''must have'', 11 / 10, Positive),
     (ustr ''staple'', 1, Positive), (ustr ''cult favorite'', 6 / 5, Positive),
     (ustr ''cult-favorite'', 6 / 5, Positive), (ustr ''viral'', 11 / 10, Positive),
     (ustr ''trending'', 1, Positive), (ustr ''hype'', 1, Positive),
     (ustr ''hyped'', 1, Positive), (ustr ''obsessed'', 11 / 10, Positive),
     (ustr ''in love'', 1, Positive), (ustr ''favorite'', 1, Positive),
     (ustr ''fave'', 1, Positive), (ustr ''repurchase'', 11 / 10, Positive),
     (ustr ''will repurchase'', 6 / 5, Positive), (ustr ''worth it'', 11 / 10, Positive),
     (ustr ''game over'', 11 / 10, Positive), (ustr ''chef kiss'', 1, Positive),
     (ustr ''no skip'', 1, Positive), (ustr ''slaps'', 1, Positive),
     (ustr ''fire'', 9 / 10, Positive), (ustr ''bomb'', 9 / 10, Positive),
     (ustr ''slay'', 9 / 10, Positive), (ustr ''grwm'', 1, Neutral),
     (ustr ''get ready with me'', 1, Neutral), (ustr ''ugc'', 1, Neutral),
     (ustr ''haul'', 1, Neutral), (ustr ''unboxing'', 1, Neutral),
     (ustr ''first impressions'', 1, Neutral), (ustr ''empties'', 1, Neutral),
     (ustr ''favorites'', 1, Positive), (ustr ''best of'', 1, Positive),
     (ustr ''top picks'', 1, Positive), (ustr ''honest review'', 1, Neutral),
     ([48324, 47196], 4 / 5, Negative), ([49892, 47581], 1, Negative),
     ([54952, 44284, 50630, 51020], 1, Negative), (ustr ''disappointed'', 1, Negative),
     (ustr ''not worth'', 1, Negative), (ustr ''not worth it'', 11 / 10, Negative),
     (ustr ''overhyped'', 11 / 10, Negative), (ustr ''overrated'', 1, Negative),
     (ustr ''meh'', 4 / 5, Negative), (ustr ''pass'', 4 / 5, Negative),
     (ustr ''skip'', 4 / 5, Negative), (ustr ''waste'', 1, Negative),
     (ustr ''broke me out'', 6 / 5, Negative), (ustr ''breakout'', 1, Negative),
     (ustr ''irritation'', 1, Negative), (ustr ''allergic'', 11 / 10, Negative)]"

record kw_stat =
  ksKeyword :: jsstring
  ksCount :: nat
  ksTotalWeight :: rat
  ksSentiment :: polarity

text \<open>
  \<open>extractKeywords\<close>, for one category: the entries whose lowered keyword occurs in the
  lowered text.
\<close>

definition extractKeywords ::
  "(jsstring \<times> rat \<times> polarity) list \<Rightarrow> jsstring \<Rightarrow> (jsstring \<times> rat \<times> polarity) list" where
  "extractKeywords entries txt =
     filter (\<lambda>entry. js_includes (toLowerCase txt) (toLowerCase (fst entry))) entries"

text \<open>
  The object \<open>aggregated[category].keywords\<close> is a list of pairs of a key (the lowered
  keyword) and its statistics, in insertion order. \<open>addFound\<close> is the body of the inner
  loop: create the entry if the key is new (with count 0 and total weight 0), then count
  the hit and add its weight, in double precision.
\<close>

fun addFound :: "(jsstring \<times> kw_stat) list \<Rightarrow> jsstring \<times> rat \<times> polarity \<Rightarrow> (jsstring \<times> kw_stat) list" where
  "addFound [] (kw, w, pol) =
     [(toLowerCase kw,
       \<lparr>ksKeyword = kw, ksCount = 0 + 1, ksTotalWeight = fl (0 + fl w), ksSentiment = pol\<rparr>)]"
| "addFound ((key, stat) # rest) (kw, w, pol) =
     (if key = toLowerCase kw
      then (key, stat\<lparr>ksCount := ksCount stat + 1,
                       ksTotalWeight := fl (ksTotalWeight stat + fl w)\<rparr>) # rest
      else (key, stat) # addFound rest (kw, w, pol))"

definition aggregateKeywords ::
  "(jsstring \<times> rat \<times> polarity) list \<Rightarrow> review list \<Rightarrow> kw_stat list" where
  "aggregateKeywords entries reviews =
     map snd (foldl (\<lambda>agg r. foldl addFound agg (extractKeywords entries (reviewText r))) [] reviews)"

record sentiment_stats = sentiment +
  positiveCount :: int
  negativeCount :: int
  totalMentions :: nat

text \<open>
  \<open>calculateSentiment\<close>: one pass over the statistics, in which each keyword adds
  \<open>count * totalWeight\<close> to the score of its polarity (\<open>addScore\<close> is this step for one
  polarity); every product, sum and quotient is rounded to a double.
\<close>

definition addScore :: "polarity \<Rightarrow> rat \<Rightarrow> kw_stat \<Rightarrow> rat" where
  "addScore pol score kw =
     (if ksSentiment kw = pol then fl (score + fl (of_nat (ksCount kw) * ksTotalWeight kw))
      else score)"

definition positiveScore :: "kw_stat list \<Rightarrow> rat" where
  "positiveScore stats = foldl (addScore Positive) 0 stats"

definition negativeScore :: "kw_stat list \<Rightarrow> rat" where
  "negativeScore stats = foldl (addScore Negative) 0 stats"

definition calculateSentiment :: "kw_stat list \<Rightarrow> sentiment_stats" where
  "calculateSentiment stats =
     (let tot = fl (positiveScore stats + negativeScore stats);
          ratio = (if tot > 0 then fl (fl (positiveScore stats / tot) * 100) else 50)
      in \<lparr>positiveRatio = jsRound ratio,
          negativeRatio = jsRound (fl (100 - ratio)),
          positiveCount = jsRound (positiveScore stats),
          negativeCount = jsRound (negativeScore stats),
          totalMentions = sum_list (map ksCount stats)\<rparr>)"

subsection \<open>Dynamic keywords\<close>

definition STOP_WORDS :: "jsstring list" where
  "STOP_WORDS =
    [ustr ''the'', ustr ''a'', ustr ''an'', ustr ''is'', ustr ''are'', ustr ''was'',
     ustr ''were'', ustr ''be'', ustr ''been'', ustr ''being'', ustr ''have'', ustr ''has'',
     ustr ''had'', ustr ''do'', ustr ''does'', ustr ''did'', ustr ''will'', ustr ''would'',
     ustr ''could'', ustr ''should'', ustr ''may'', ustr ''might'', ustr ''must'',
     ustr ''shall'', ustr ''can'', ustr ''need'', ustr ''dare'', ustr ''ought'', ustr ''used'',
     ustr ''to'', ustr ''of'', ustr ''in'', ustr ''for'', ustr ''on'', ustr ''with'',
     ustr ''at'', ustr ''by'', ustr ''from'', ustr ''as'', ustr ''into'', ustr ''about'',
     ustr ''like'', ustr ''through'', ustr ''after'', ustr ''over'', ustr ''between'',
     ustr ''out'', ustr ''against'', ustr ''and'', ustr ''but'', ustr ''or'', ustr ''nor'',
     ustr ''so'', ustr ''yet'', ustr ''both'', ustr ''either'', ustr ''neither'', ustr ''not'',
     ustr ''only'', ustr ''own'', ustr ''same'', ustr ''than'', ustr ''too'', ustr ''very'',
     ustr ''just'', ustr ''also'', ustr ''this'', ustr ''that'', ustr ''these'',
     ustr ''those'', ustr ''it'', ustr ''its'', ustr ''my'', ustr ''your'', ustr ''his'',
     ustr ''her'', ustr ''i'', ustr ''you'', ustr ''he'', ustr ''she'', ustr ''we'',
     ustr ''they'', ustr ''me'', ustr ''him'', ustr ''us'', ustr ''them'', ustr ''what'',
     ustr ''which'', ustr ''who'', ustr ''whom'', ustr ''whose'', ustr ''where'',
     ustr ''when'', ustr ''why'', ustr ''how'', ustr ''all'', ustr ''each'', ustr ''every'',
     ustr ''any'', ustr ''some'', ustr ''no'', ustr ''none'', ustr ''more'', ustr ''most'',
     ustr ''other'', ustr ''up'', ustr ''down'', ustr ''here'', ustr ''there'', ustr ''now'',
     ustr ''then'', ustr ''if'', ustr ''because'', ustr ''while'', ustr ''video'',
     ustr ''videos'', ustr ''subscribe'', ustr ''channel'', ustr ''watch'', ustr ''review'',
     ustr ''reviews'', ustr ''tutorial'', ustr ''routine'', ustr ''routines'', ustr ''using'',
     ustr ''trying'', ustr ''tried'', ustr ''try'', ustr ''test'', ustr ''testing'',
     ustr ''tested'', ustr ''get'', ustr ''got'', ustr ''getting'', ustr ''use'',
     ustr ''used'', ustr ''make'', ustr ''made'', ustr ''making'', ustr ''see'', ustr ''look'',
     ustr ''looking'', ustr ''looks'', ustr ''new'', ustr ''one'', ustr ''first'',
     ustr ''day'', ustr ''days'', ustr ''time'', ustr ''way'', ustr ''back'', ustr ''really'',
     ustr ''actually'', ustr ''literally'', ustr ''honestly'', ustr ''think'', ustr ''know'',
     ustr ''want'', ustr ''need'', ustr ''going'', ustr ''come'', ustr ''coming'',
     ustr ''take'', ustr ''taking'', ustr ''put'', ustr ''give'', ustr ''work'',
     ustr ''works'', ustr ''link'', ustr ''below'', ustr ''check'', ustr ''comment'',
     ustr ''comments'', ustr ''share'', ustr ''follow'', ustr ''like'', ustr ''likes'',
     [51060], [44536], [51200], [44163], [49688], [46321], [48143], [45908], [46608], [50504],
     [51328], [51096], [47803], [45320, 47924], [47566, 51060], [51221, 47568], [51652, 51676],
     [50756, 51204], [46104, 44172], [50628, 52397], ustr ''https'', ustr ''http'',
     ustr ''www'', ustr ''com'', ustr ''org'', ustr ''net'', ustr ''youtube'', ustr ''youtu'',
     ustr ''bit'', ustr ''linktr'', ustr ''instagram'', ustr ''tiktok'', ustr ''facebook'',
     ustr ''twitter'', ustr ''products'', ustr ''product'', ustr ''skin'', ustr ''face'',
     ustr ''here'', ustr ''best'', ustr ''good'', ustr ''bad'', ustr ''right'', ustr ''wrong'',
     ustr ''full'', ustr ''free'', ustr ''shop'', ustr ''buy'', ustr ''sale'', ustr ''off'',
     ustr ''code'', ustr ''affiliate'', ustr ''sponsored'', ustr ''gifted'', ustr ''discount'',
     ustr ''coupon'']"

definition BEAUTY_BOOST_WORDS :: "jsstring list" where
  "BEAUTY_BOOST_WORDS =
    [ustr ''pdrn'', ustr ''phyto-pdrn'', ustr ''exosomes'', ustr ''exosome'',
     ustr ''polynucleotides'', ustr ''polynucleotide'', ustr ''nmn'', ustr ''nhn'',
     ustr ''ectoin'', ustr ''bakuchiol'', ustr ''egf'', ustr ''fgf'', ustr ''postbiotics'',
     ustr ''postbiotic'', ustr ''probiotics'', ustr ''prebiotics'', ustr ''glutathione'',
     ustr ''ghk-cu'', ustr ''copper'', ustr ''tranexamic'', ustr ''azelaic'', ustr ''pha'',
     ustr ''lha'', ustr ''resveratrol'', ustr ''astaxanthin'', ustr ''fullerene'',
     ustr ''salmon'', ustr ''collagen'', ustr ''peptide'', ustr ''niacinamide'',
     ustr ''retinol'', ustr ''hyaluronic'', ustr ''vitamin'', ustr ''ceramide'', ustr ''cica'',
     ustr ''centella'', ustr ''snail'', ustr ''propolis'', ustr ''aha'', ustr ''bha'',
     ustr ''adenosine'', ustr ''bifida'', ustr ''galactomyces'', ustr ''saccharomyces'',
     ustr ''ferment'', ustr ''fermented'', ustr ''mugwort'', ustr ''artemisia'',
     ustr ''madecassoside'', ustr ''allantoin'', ustr ''panthenol'', ustr ''arbutin'',
     ustr ''kojic'', ustr ''licorice'', ustr ''glucan'', ustr ''slow-aging'',
     ustr ''skinimalism'', ustr ''glass'', ustr ''glassy'', ustr ''cloud'', ustr ''barrier'',
     ustr ''microbiome'', ustr ''skin-cycling'', ustr ''slugging'', ustr ''skip-care'',
     ustr ''clean'', ustr ''waterless'', ustr ''dewy'', ustr ''plump'', ustr ''plumping'',
     ustr ''bouncy'', ustr ''translucent'', ustr ''poreless'', ustr ''luminous'',
     ustr ''radiant'', ustr ''radiance'', ustr ''glow'', ustr ''glowy'', ustr ''regenerating'',
     ustr ''rejuvenating'', ustr ''revitalizing'', ustr ''second-skin'', ustr ''blurring'',
     ustr ''blur'', ustr ''soft-focus'', ustr ''lip-oil'', ustr ''hybrid'', ustr ''cushion'',
     ustr ''tinted'', ustr ''skin-tint'', ustr ''bb'', ustr ''cc'', ustr ''matte'',
     ustr ''satin'', ustr ''velvet'', ustr ''glossy'', ustr ''sheer'', ustr ''buildable'',
     ustr ''coverage'', ustr ''transfer-proof'', ustr ''long-wear'', ustr ''waterproof'',
     ustr ''smudge-proof'', ustr ''mask-proof'', ustr ''holy-grail'', ustr ''hg'',
     ustr ''dupe'', ustr ''viral'', ustr ''hype'', ustr ''hyped'', ustr ''trending'',
     ustr ''game-changer'', ustr ''must-have'', ustr ''staple'', ustr ''cult-favorite'',
     ustr ''obsessed'', ustr ''favorite'', ustr ''fave'', ustr ''repurchase'', ustr ''worth'',
     ustr ''slaps'', ustr ''slay'', ustr ''grwm'', ustr ''ugc'', ustr ''haul'',
     ustr ''unboxing'', ustr ''empties'', ustr ''serum'', ustr ''cream'', ustr ''gel'',
     ustr ''lotion'', ustr ''essence'', ustr ''toner'', ustr ''ampoule'', ustr ''mask'',
     ustr ''moisturizer'', ustr ''cleanser'', ustr ''sunscreen'', ustr ''spf'', ustr ''oil'',
     ustr ''balm'', ustr ''hydrating'', ustr ''brightening'', ustr ''moisturizing'',
     ustr ''soothing'', ustr ''firming'', ustr ''anti-aging'', ustr ''acne'', ustr ''pore'',
     ustr ''pores'', ustr ''wrinkle'', ustr ''lifting'', ustr ''exfoliating'',
     ustr ''nourishing'', ustr ''lightweight'', ustr ''smooth'', ustr ''absorbs'',
     ustr ''sticky'', ustr ''refreshing'', ustr ''silky'', ustr ''medicube'', ustr ''anua'',
     ustr ''cosrx'', ustr ''beauty'', ustr ''korean'', ustr ''kbeauty'', ustr ''skincare'',
     ustr ''innisfree'', ustr ''laneige'', ustr ''sulwhasoo'', ustr ''amorepacific'',
     ustr ''missha'', ustr ''etude'', ustr ''klairs'', ustr ''isntree'', ustr ''goodal'',
     ustr ''round-lab'', ustr ''torriden'', ustr ''skin1004'']"

text \<open>
  The token pattern \<open>/[a-z]{3,}|[\<dots>]{2,}/g\<close>, the second class being the Hangul syllables:
  a run of at least three lower-case Latin letters, or of at least two Hangul syllables,
  each taken as long as it goes; where no match starts the scan moves on by one unit.
\<close>

definition isLowerLatin :: "nat \<Rightarrow> bool" where
  "isLowerLatin c = (97 \<le> c \<and> c \<le> 122)"

definition isHangul :: "nat \<Rightarrow> bool" where
  "isHangul c = (44032 \<le> c \<and> c \<le> 55203)"

function wordMatches :: "jsstring \<Rightarrow> jsstring list" where
  "wordMatches [] = []"
| "wordMatches (c # cs) =
     (if isLowerLatin c \<and> length (takeWhile isLowerLatin (c # cs)) \<ge> 3
      then takeWhile isLowerLatin (c # cs) # wordMatches (dropWhile isLowerLatin cs)
      else if isHangul c \<and> length (takeWhile isHangul (c # cs)) \<ge> 2
      then takeWhile isHangul (c # cs) # wordMatches (dropWhile isHangul cs)
      else wordMatches cs)"
  by pat_completeness auto
termination
  by (relation "measure length") (auto simp: length_dropWhile_le le_imp_less_Suc)

text \<open>
  \<open>wordFrequency\<close> is a list of words with their count and boost, in insertion order.
  \<open>countWord\<close> is the body of the loop over the tokens: stop words are skipped, then
  words shorter than three units. \<open>wordFrequency\<close> is a plain object, so the one token
  that names an inherited property, \<open>constructor\<close>, is found present and never becomes a
  key of its own.
\<close>

fun bumpWord :: "(jsstring \<times> nat \<times> nat) list \<Rightarrow> jsstring \<Rightarrow> (jsstring \<times> nat \<times> nat) list" where
  "bumpWord [] w = [(w, 1, if w \<in> set BEAUTY_BOOST_WORDS then 2 else 1)]"
| "bumpWord ((w', n, boost) # rest) w =
     (if w' = w then (w', n + 1, boost) # rest else (w', n, boost) # bumpWord rest w)"

definition countWord :: "(jsstring \<times> nat \<times> nat) list \<Rightarrow> jsstring \<Rightarrow> (jsstring \<times> nat \<times> nat) list" where
  "countWord wordFrequency w =
     (if w \<in> set STOP_WORDS then wordFrequency
      else if length w < 3 then wordFrequency
      else if w = ustr ''constructor'' then wordFrequency
      else bumpWord wordFrequency w)"

record dyn_keyword =
  dkKeyword :: jsstring
  dkCount :: nat
  dkScore :: nat
  isBoosted :: bool

text \<open>\<open>extractDynamicKeywords\<close>; \<open>Array.prototype.sort\<close> is stable, as \<open>sort_key\<close> is.\<close>

definition extractDynamicKeywords :: "review list \<Rightarrow> dyn_keyword list" where
  "extractDynamicKeywords reviews =
     (let wordFrequency =
            foldl (\<lambda>fq r. foldl countWord fq (wordMatches (toLowerCase (reviewText r)))) [] reviews
      in take 30
           (sort_key (\<lambda>k. - int (dkScore k))
              (filter (\<lambda>k. dkCount k \<ge> 2)
                 (map (\<lambda>(w, n, boost).
                         \<lparr>dkKeyword = w, dkCount = n, dkScore = n * boost, isBoosted = (boost > 1)\<rparr>)
                      wordFrequency))))"

text \<open>What holds of every entry of \<open>wordFrequency\<close>: its word is no stop word, and its
  boost is 2 for a word of the boost set and 1 otherwise.\<close>

definition wellCounted :: "(jsstring \<times> nat \<times> nat) list \<Rightarrow> bool" where
  "wellCounted fq = list_all (\<lambda>(w, n, boost). w \<notin> set STOP_WORDS \<and>
       boost = (if w \<in> set BEAUTY_BOOST_WORDS then 2 else 1)) fq"


text \<open>Concrete reviews, an override, an analysis and two environments, for the examples.\<close>

definition exampleReview :: "nat \<Rightarrow> review" where
  "exampleReview n = \<lparr>rid = n, platform = ''YOUTUBE'', externalId = showNat n,
       title = Some (ustr ''cica cream''), description = None, status = ''APPROVED'',
       matchedProducts = [(ustr ''P1'', 80)]\<rparr>"

definition exampleOverride :: override where
  "exampleOverride = \<lparr>ovProductCode = ustr ''P1'', ovSummary = SStr (ustr ''fixed''),
       ovHashtags = Some [ustr ''cica''],
       ovSentiment = Some \<lparr>positiveRatio = 90, negativeRatio = 10\<rparr>,
       direction = None, updatedAt = Some 5\<rparr>"

definition exampleAnalysis :: ai_result where
  "exampleAnalysis = \<lparr>arSummary = SStr (ustr ''calming''), arHashtags = Some [ustr ''#cica''],
       arSentiment = Some \<lparr>positiveRatio = 85, negativeRatio = 15\<rparr>,
       updatedInsights = Some (ustr ''notes'')\<rparr>"

definition claudeEnv :: "int \<Rightarrow> int \<Rightarrow> ai_reply \<Rightarrow> env" where
  "claudeEnv t0 t1 reply = \<lparr>AI_PROVIDER = ''claude'', anthropicClient = True, now = t0,
       completedAt = t1, aiReply = reply\<rparr>"

definition keywordEnv :: env where
  "keywordEnv = \<lparr>AI_PROVIDER = ''keyword'', anthropicClient = False, now = 0,
       completedAt = 0, aiReply = AiFailure\<rparr>"

definition afterFirstCall :: "summary_result \<times> summarizer_state" where
  "afterFirstCall = getSummary (claudeEnv 1000 2000 (AiJson (AiObject exampleAnalysis))) freshState
      (ustr ''P1'') [exampleReview 1, exampleReview 2] None"

text \<open>An environment in which the collaborator answers with the JSON text \<open>0\<close>, and the
  state and payload after a first call in it at time 1000, the analysis completing at 2000.\<close>

definition zeroReplyEnv :: "int \<Rightarrow> int \<Rightarrow> env" where
  "zeroReplyEnv t0 t1 = claudeEnv t0 t1 (AiJson (AiOther False))"

definition afterZeroReply :: "summary_result \<times> summarizer_state" where
  "afterZeroReply = getSummary (zeroReplyEnv 1000 2000) freshState
      (ustr ''P1'') [exampleReview 1, exampleReview 2] None"





text \<open>Two stand-ins for the platform decoder (one reads every blob as a given text, one throws), and a product whose blob is the base64 form of \<open>#Cica #cica\<close>.\<close>

definition decodesTo :: "jsstring \<Rightarrow> string \<Rightarrow> jsstring option" where
  "decodesTo doc blob = Some doc"

definition failingDecode :: "string \<Rightarrow> jsstring option" where
  "failingDecode blob = None"

definition cicaProduct :: product where
  "cicaProduct = \<lparr>productCode = ustr ''P1'', productName = ustr ''Cica Cream'',
       productSaleStatus = True, detailInfo = Some ''I0NpY2EgI2NpY2E=''\<rparr>"


text \<open>A video and a product for the examples.\<close>

definition cicaVideo :: video where
  "cicaVideo = \<lparr>videoId = ustr ''abc123'', vTitle = ustr ''My CICA routine'',
                 vDescription = ustr ''honest thoughts''\<rparr>"

definition creamProduct :: product where
  "creamProduct = \<lparr>productCode = ustr ''P1'', productName = ustr ''Meebak Cica Cream'',
                    productSaleStatus = True, detailInfo = None\<rparr>"









text \<open>A review with a given title, and two Korean words: \<open>moisture\<close> (two syllables) and \<open>moistureCream\<close> (four).\<close>

definition textReview :: "nat \<Rightarrow> jsstring \<Rightarrow> review" where
  "textReview n t = \<lparr>rid = n, platform = ''YOUTUBE'', externalId = showNat n, title = Some t,
       description = None, status = ''APPROVED'', matchedProducts = []\<rparr>"

definition moisture :: jsstring where
  "moisture = [49688, 48516]"

definition moistureCream :: jsstring where
  "moistureCream = [49688, 48516, 53356, 47548]"

text \<open>Four batches of reviews, one sentiment keyword per title.\<close>

definition threeDistinct :: "review list" where
  "threeDistinct = [textReview 11 (ustr ''amazing''), textReview 12 (ustr ''staple''),
                    textReview 13 (ustr ''fave''), textReview 14 (ustr ''waste'')]"

definition threeSame :: "review list" where
  "threeSame = [textReview 11 (ustr ''amazing''), textReview 12 (ustr ''amazing''),
                textReview 13 (ustr ''amazing''), textReview 14 (ustr ''waste'')]"

definition threeToFive :: "review list" where
  "threeToFive = [textReview 11 (ustr ''amazing''), textReview 12 (ustr ''staple''),
                  textReview 13 (ustr ''fave''), textReview 14 (ustr ''waste''),
                  textReview 15 (ustr ''overrated''), textReview 16 (ustr ''breakout''),
                  textReview 17 (ustr ''irritation''), textReview 18 (ustr ''disappointed'')]"

definition unequalWeights :: "review list" where
  "unequalWeights = [textReview 11 (ustr ''dupe''), textReview 12 (ustr ''meh''),
                     textReview 13 (ustr ''broke me out'')]"

section \<open>Rounding to a double\<close>

lemma floor_rat_numeral [simp]:
  "\<lfloor>numeral a / numeral b :: rat\<rfloor> = numeral a div numeral b"
  using floor_divide_of_int_eq[of "numeral a" "numeral b", where ?'a = rat] by simp

text \<open>The equations that evaluate \<open>fl\<close> at a given number.\<close>

lemmas fl_eval = fl_def mantissaExponent_def scaleDown.simps scaleUp.simps roundHalfEven_def
  pow2_def Let_def

lemma pow2_powi: "pow2 e = 2 powi e"
  by (simp add: pow2_def power_int_def power_one_over inverse_eq_divide)

lemma pow2_pos: "0 < pow2 e"
  by (simp add: pow2_powi)

lemma pow2_pred: "pow2 (e - 1) = pow2 e / 2"
  by (simp add: pow2_powi power_int_diff)

lemma pow2_nonpos: "e \<le> 0 \<Longrightarrow> pow2 e = 1 / of_int (2 ^ nat (- e))"
  by (simp add: pow2_def)

lemma pow2_ge_2: "1 \<le> e \<Longrightarrow> 2 \<le> pow2 e"
proof -
  assume "1 \<le> e"
  then have "(2::rat) ^ 1 \<le> 2 ^ nat e" by (intro power_increasing) auto
  then show ?thesis using \<open>1 \<le> e\<close> by (simp add: pow2_def)
qed

lemma scaleDown_spec:
  "0 < m \<Longrightarrow> scaleDown m e = (m', e') \<Longrightarrow> m' * pow2 e' = m * pow2 e \<and> 0 < m'"
proof (induction m e rule: scaleDown.induct)
  case (1 m e)
  show ?case
  proof (cases "2 ^ 53 \<le> m")
    case True
    then have "scaleDown (m / 2) (e + 1) = (m', e')"
      using 1(3) by (simp add: scaleDown.simps[of m e])
    then have "m' * pow2 e' = m / 2 * pow2 (e + 1) \<and> 0 < m'"
      using 1(1) True 1(2) by simp
    moreover have "pow2 (e + 1) = 2 * pow2 e" using pow2_pred[of "e + 1"] by simp
    ultimately show ?thesis by simp
  next
    case False
    then show ?thesis using 1(2,3) by (simp add: scaleDown.simps[of m e])
  qed
qed

lemma scaleUp_spec:
  "0 < m \<Longrightarrow> scaleUp m e = (m', e') \<Longrightarrow> m' * pow2 e' = m * pow2 e \<and> 2 ^ 52 \<le> m'"
proof (induction m e rule: scaleUp.induct)
  case (1 m e)
  show ?case
  proof (cases "m < 2 ^ 52")
    case True
    then have "scaleUp (2 * m) (e - 1) = (m', e')"
      using 1(2,3) by (simp add: scaleUp.simps[of m e])
    then have "m' * pow2 e' = 2 * m * pow2 (e - 1) \<and> 2 ^ 52 \<le> m'"
      using 1(1) True 1(2) by simp
    then show ?thesis by (simp add: pow2_pred)
  next
    case False
    then show ?thesis using 1(3) by (simp add: scaleUp.simps[of m e])
  qed
qed

text \<open>The mantissa and exponent of a positive number give the number back, and the
  mantissa is normalised.\<close>

lemma mantissaExponent_spec:
  assumes "0 < x" "mantissaExponent x = (m, e)"
  shows "m * pow2 e = x \<and> 2 ^ 52 \<le> m"
proof -
  obtain m0 e0 where d: "scaleDown x 0 = (m0, e0)" by (cases "scaleDown x 0") auto
  have "m0 * pow2 e0 = x * pow2 0 \<and> 0 < m0" using assms(1) d by (rule scaleDown_spec)
  moreover have "scaleUp m0 e0 = (m, e)" using assms(2) d by (simp add: mantissaExponent_def)
  ultimately show ?thesis using scaleUp_spec[of m0 e0 m e] by (simp add: pow2_def)
qed

lemma roundHalfEven_le: "y \<le> of_int k \<Longrightarrow> roundHalfEven y \<le> k"
proof -
  assume le: "y \<le> of_int k"
  then have f: "\<lfloor>y\<rfloor> \<le> k" by (simp add: floor_le_iff)
  show ?thesis
  proof (cases "\<lfloor>y\<rfloor> = k")
    case True
    then have "y = of_int k" using le of_int_floor_le[of y] by simp
    then show ?thesis by (simp add: roundHalfEven_def)
  next
    case False
    then have "\<lfloor>y\<rfloor> + 1 \<le> k" using f by simp
    then show ?thesis by (simp add: roundHalfEven_def Let_def)
  qed
qed

lemma roundHalfEven_nonneg: "0 \<le> y \<Longrightarrow> 0 \<le> roundHalfEven y"
  by (simp add: roundHalfEven_def Let_def zero_le_floor)

lemma fl_pos:
  "0 < x \<Longrightarrow>
   fl x = of_int (roundHalfEven (fst (mantissaExponent x))) * pow2 (snd (mantissaExponent x))"
  by (simp add: fl_def split: prod.splits)

text \<open>Rounding keeps a number that is not negative so, and keeps it below an integer
  that is itself a double.\<close>

lemma fl_nonneg: "0 \<le> x \<Longrightarrow> 0 \<le> fl x"
proof -
  assume x: "0 \<le> x"
  show ?thesis
  proof (cases "x = 0")
    case True
    then show ?thesis by (simp add: fl_def)
  next
    case False
    then have pos: "0 < x" using x by simp
    obtain m e where n: "mantissaExponent x = (m, e)" by (cases "mantissaExponent x") auto
    have "0 \<le> m" using mantissaExponent_spec[OF pos n] by simp
    then have "0 \<le> roundHalfEven m" by (rule roundHalfEven_nonneg)
    then show ?thesis using pos n pow2_pos[of e] by (simp add: fl_pos)
  qed
qed

lemma fl_le_int:
  assumes "0 \<le> x" "x \<le> of_int k" "k < 2 ^ 53"
  shows "fl x \<le> of_int k"
proof (cases "x = 0")
  case True
  then show ?thesis using assms(2) by (simp add: fl_def)
next
  case False
  then have pos: "0 < x" using assms(1) by simp
  obtain m e where n: "mantissaExponent x = (m, e)" by (cases "mantissaExponent x") auto
  have spec: "m * pow2 e = x" "2 ^ 52 \<le> m" using mantissaExponent_spec[OF pos n] by simp_all
  have e0: "e \<le> 0"
  proof (rule ccontr)
    assume "\<not> e \<le> 0"
    then have "2 \<le> pow2 e" by (intro pow2_ge_2) simp
    then have "2 ^ 52 * 2 \<le> m * pow2 e" using spec(2) by (intro mult_mono) simp_all
    then have "(2::rat) ^ 53 \<le> of_int k" using spec(1) assms(2) by simp
    moreover have "(of_int k :: rat) < of_int (2 ^ 53)"
      using assms(3) by (simp only: of_int_less_iff)
    ultimately show False by simp
  qed
  define K where "K = k * 2 ^ nat (- e)"
  have p: "pow2 e = 1 / of_int (2 ^ nat (- e))" using e0 by (rule pow2_nonpos)
  have "m = x * of_int (2 ^ nat (- e))" using spec(1)[symmetric] by (simp add: p)
  also have "\<dots> \<le> of_int k * of_int (2 ^ nat (- e))"
    using assms(2) by (intro mult_right_mono) simp_all
  finally have "m \<le> of_int K" by (simp add: K_def)
  then have "roundHalfEven m \<le> K" by (rule roundHalfEven_le)
  then have "(of_int (roundHalfEven m) :: rat) \<le> of_int K" by (simp only: of_int_le_iff)
  then have "of_int (roundHalfEven m) * pow2 e \<le> of_int K * pow2 e"
    using pow2_pos[of e] by (intro mult_right_mono) simp_all
  also have "of_int K * pow2 e = of_int k" by (simp add: K_def p)
  finally show ?thesis using pos n by (simp add: fl_pos)
qed

text \<open>A whole number below \<open>2 ^ 53\<close> is a double.\<close>

lemma roundHalfEven_of_int: "roundHalfEven (of_int k) = k"
  by (simp add: roundHalfEven_def)

lemma fl_of_int:
  assumes "0 \<le> k" "k < 2 ^ 53"
  shows "fl (of_int k) = of_int k"
proof (cases "k = 0")
  case True
  then show ?thesis by (simp add: fl_def)
next
  case False
  define x :: rat where "x = of_int k"
  have pos: "0 < x" using False assms(1) by (simp add: x_def)
  obtain m e where n: "mantissaExponent x = (m, e)" by (cases "mantissaExponent x") auto
  have spec: "m * pow2 e = x" "2 ^ 52 \<le> m" using mantissaExponent_spec[OF pos n] by simp_all
  have e0: "e \<le> 0"
  proof (rule ccontr)
    assume "\<not> e \<le> 0"
    then have "2 \<le> pow2 e" by (intro pow2_ge_2) simp
    then have "2 ^ 52 * 2 \<le> m * pow2 e" using spec(2) by (intro mult_mono) simp_all
    then have "(2::rat) ^ 53 \<le> of_int k" using spec(1) by (simp add: x_def)
    moreover have "(of_int k :: rat) < of_int (2 ^ 53)"
      using assms(2) by (simp only: of_int_less_iff)
    ultimately show False by simp
  qed
  define K where "K = k * 2 ^ nat (- e)"
  have p: "pow2 e = 1 / of_int (2 ^ nat (- e))" using e0 by (rule pow2_nonpos)
  have "m = x * of_int (2 ^ nat (- e))" using spec(1)[symmetric] by (simp add: p)
  then have "m = of_int K" by (simp add: K_def x_def)
  then have "roundHalfEven m = K" by (simp only: roundHalfEven_of_int)
  then have "fl x = of_int K * pow2 e" using pos n by (simp add: fl_pos)
  also have "\<dots> = of_int k" by (simp add: K_def p)
  finally show ?thesis by (simp only: x_def)
qed

lemma fl_zero: "fl 0 = 0"
  by (simp add: fl_def)

lemma fl_one: "fl 1 = 1"
  using fl_of_int[of 1] by simp

lemma fl_numeral: "numeral n < (2::int) ^ 53 \<Longrightarrow> fl (numeral n) = numeral n"
  using fl_of_int[of "numeral n"] by simp

lemmas fl_whole = fl_zero fl_one fl_numeral


section \<open>Feedback history is bounded\<close>

lemma filter_Cons_holds: "filter P xs = y # ys \<Longrightarrow> P y"
proof -
  assume "filter P xs = y # ys"
  then have "y \<in> set (filter P xs)" by simp
  then show "P y" by simp
qed

lemma filter_remove1_first:
  "filter P xs = y # ys \<Longrightarrow> filter P (remove1 y xs) = ys"
proof (induction xs)
  case Nil
  then show ?case by simp
next
  case (Cons x xs)
  have py: "P y" using Cons.prems by (rule filter_Cons_holds)
  show ?case
  proof (cases "P x")
    case True
    then show ?thesis using Cons.prems by auto
  next
    case False
    then have "x \<noteq> y" using py by auto
    then show ?thesis using False Cons by auto
  qed
qed

lemma filter_remove1_other:
  "\<not> Q y \<Longrightarrow> filter Q (remove1 y xs) = filter Q xs"
  by (induction xs) auto

lemma mostRecent_snoc:
  "mostRecent k (mostRecent k xs @ ys) = mostRecent k (xs @ ys)"
  by (cases "length xs \<le> k") (auto simp: mostRecent_def add.commute)

lemma recordFeedback_ref:
  "aiFeedbackHistoryRef st \<noteq> None \<Longrightarrow> aiFeedbackHistoryRef (recordFeedback st p orig corr t) \<noteq> None"
  by (auto simp: recordFeedback_def Let_def split: option.splits list.splits)

lemma recordFeedback_same:
  assumes "aiFeedbackHistoryRef st \<noteq> None" "length (feedbackOf st p) \<le> 10"
  shows "feedbackOf (recordFeedback st p orig corr t) p
         = mostRecent 10 (feedbackOf st p @ [mkFeedback (p, orig, corr, t)])"
proof -
  from assms(1) obtain hist where h: "aiFeedbackHistoryRef st = Some hist" by auto
  let ?new = "mkFeedback (p, orig, corr, t)"
  let ?l = "filter (\<lambda>f. fbProductCode f = p) hist"
  have len: "length ?l \<le> 10" using assms(2) h by (simp add: feedbackOf_def)
  show ?thesis
  proof (cases "length ?l = 10")
    case True
    then obtain y ys where l: "?l = y # ys" by (cases ?l) auto
    have f: "filter (\<lambda>f. fbProductCode f = p) (hist @ [?new]) = y # ys @ [?new]"
      using l by (simp add: mkFeedback_def)
    have "filter (\<lambda>f. fbProductCode f = p) (remove1 y (hist @ [?new])) = ys @ [?new]"
      by (rule filter_remove1_first) (rule f)
    moreover have "mostRecent 10 (?l @ [?new]) = ys @ [?new]"
      using True l by (simp add: mostRecent_def)
    ultimately show ?thesis using h True l f
      by (simp add: recordFeedback_def feedbackOf_def Let_def mkFeedback_def)
  next
    case False
    with len have "length ?l < 10" by simp
    then show ?thesis using h
      by (simp add: recordFeedback_def feedbackOf_def Let_def mkFeedback_def mostRecent_def)
  qed
qed

lemma recordFeedback_other:
  assumes "q \<noteq> p"
  shows "feedbackOf (recordFeedback st p orig corr t) q = feedbackOf st q"
proof (cases "aiFeedbackHistoryRef st")
  case None
  then show ?thesis by (simp add: recordFeedback_def)
next
  case (Some hist)
  let ?new = "mkFeedback (p, orig, corr, t)"
  let ?h1 = "hist @ [?new]"
  have new: "\<not> fbProductCode ?new = q" using assms by (simp add: mkFeedback_def)
  have keep: "filter (\<lambda>f. fbProductCode f = q) ?h1 = filter (\<lambda>f. fbProductCode f = q) hist"
    using new by simp
  have drop1: "filter (\<lambda>f. fbProductCode f = q) (remove1 y ?h1) = filter (\<lambda>f. fbProductCode f = q) hist"
    if "filter (\<lambda>f. fbProductCode f = p) ?h1 = y # ys" for y ys
  proof -
    have "fbProductCode y = p" using that by (rule filter_Cons_holds)
    then have "\<not> fbProductCode y = q" using assms by simp
    then show ?thesis using keep by (simp add: filter_remove1_other)
  qed
  show ?thesis
  proof (cases "filter (\<lambda>f. fbProductCode f = p) ?h1")
    case Nil
    then show ?thesis using Some keep
      by (simp add: recordFeedback_def feedbackOf_def Let_def mkFeedback_def)
  next
    case (Cons y ys)
    then show ?thesis using Some keep drop1[OF Cons]
      by (simp add: recordFeedback_def feedbackOf_def Let_def mkFeedback_def)
  qed
qed


lemma recordFeedbacks_snoc:
  "recordFeedbacks st (cs @ [(p, orig, corr, t)]) = recordFeedback (recordFeedbacks st cs) p orig corr t"
  by (simp add: recordFeedbacks_def)

lemma recordFeedbacks_ref:
  "aiFeedbackHistoryRef st \<noteq> None \<Longrightarrow> aiFeedbackHistoryRef (recordFeedbacks st calls) \<noteq> None"
proof (induction calls rule: rev_induct)
  case Nil
  then show ?case by (simp add: recordFeedbacks_def)
next
  case (snoc c cs)
  obtain p orig corr t where c: "c = (p, orig, corr, t)" by (cases c) auto
  show ?case using snoc unfolding c recordFeedbacks_snoc by (intro recordFeedback_ref) simp
qed

lemma length_mostRecent: "length (mostRecent k xs) \<le> k"
  by (simp add: mostRecent_def)

lemma recordFeedback_bound:
  assumes "\<forall>q. length (feedbackOf st q) \<le> 10"
  shows "length (feedbackOf (recordFeedback st p orig corr t) q) \<le> 10"
proof (cases "aiFeedbackHistoryRef st")
  case None
  then show ?thesis using assms by (simp add: recordFeedback_def)
next
  case (Some hist)
  show ?thesis
  proof (cases "q = p")
    case True
    have "aiFeedbackHistoryRef st \<noteq> None" using Some by simp
    moreover have "length (feedbackOf st p) \<le> 10" using assms by simp
    ultimately show ?thesis unfolding True
      by (simp add: recordFeedback_same length_mostRecent)
  next
    case False
    then show ?thesis using assms by (simp add: recordFeedback_other)
  qed
qed

lemma recordFeedbacks_bound:
  assumes "\<forall>q. length (feedbackOf st q) \<le> 10"
  shows "\<forall>q. length (feedbackOf (recordFeedbacks st calls) q) \<le> 10"
proof (induction calls rule: rev_induct)
  case Nil
  then show ?case using assms by (simp add: recordFeedbacks_def)
next
  case (snoc c cs)
  obtain p orig corr t where c: "c = (p, orig, corr, t)" by (cases c) auto
  show ?case unfolding c recordFeedbacks_snoc using snoc by (blast intro: recordFeedback_bound)
qed

lemma recordFeedbacks_recent:
  assumes "\<forall>q. length (feedbackOf st q) \<le> 10" "aiFeedbackHistoryRef st \<noteq> None"
  shows "feedbackOf (recordFeedbacks st calls) p
         = mostRecent 10 (feedbackOf st p @ map mkFeedback (filter (\<lambda>c. fst c = p) calls))"
proof (induction calls rule: rev_induct)
  case Nil
  then show ?case using assms(1) by (simp add: recordFeedbacks_def mostRecent_def)
next
  case (snoc c cs)
  obtain p' orig corr t where c: "c = (p', orig, corr, t)" by (cases c) auto
  let ?s = "recordFeedbacks st cs"
  have ref: "aiFeedbackHistoryRef ?s \<noteq> None" using assms(2) by (rule recordFeedbacks_ref)
  have bnd: "length (feedbackOf ?s p) \<le> 10" using recordFeedbacks_bound[OF assms(1)] by simp
  show ?case
  proof (cases "p' = p")
    case True
    have "feedbackOf (recordFeedbacks st (cs @ [c])) p
          = mostRecent 10 (feedbackOf ?s p @ [mkFeedback (p, orig, corr, t)])"
      unfolding c True recordFeedbacks_snoc using ref bnd by (rule recordFeedback_same)
    also have "\<dots> = mostRecent 10 (feedbackOf st p @ map mkFeedback (filter (\<lambda>c. fst c = p) (cs @ [c])))"
      unfolding snoc.IH mostRecent_snoc using True c by simp
    finally show ?thesis .
  next
    case False
    then show ?thesis unfolding c recordFeedbacks_snoc using snoc.IH
      by (simp add: recordFeedback_other)
  qed
qed

text \<open>
  Claim C10. If no product has more than ten feedback records, then after any run of
  \<open>recordFeedback\<close> calls (for any products, in any order) no product has more than ten;
  and where a history is attached, a product's records are then the ten most recent of its
  earlier records followed by the new ones, in order. After eleven calls for a product that
  had none, these are the records of calls two to eleven.
\<close>

theorem recordFeedback_keeps_ten_most_recent:
  "(\<forall>q. length (feedbackOf st q) \<le> 10) \<longrightarrow>
     (\<forall>q. length (feedbackOf (recordFeedbacks st calls) q) \<le> 10) \<and>
     (aiFeedbackHistoryRef st \<noteq> None \<longrightarrow>
        feedbackOf (recordFeedbacks st calls) p
          = mostRecent 10 (feedbackOf st p @ map mkFeedback (filter (\<lambda>c. fst c = p) calls)))"
  using recordFeedbacks_bound recordFeedbacks_recent by blast

lemma feedbackOf_fresh: "feedbackOf freshState q = []"
  by (simp add: freshState_def feedbackOf_def)

theorem recordFeedback_keeps_ten_most_recent_witness:
  "(\<forall>q. length (feedbackOf freshState q) \<le> 10) \<and> aiFeedbackHistoryRef freshState \<noteq> None \<and>
   length elevenCalls = 11 \<and>
   feedbackOf (recordFeedbacks freshState elevenCalls) (ustr ''P1'') = map mkFeedback (tl elevenCalls)"
proof -
  have h: "\<forall>q. length (feedbackOf freshState q) \<le> 10" by (simp add: feedbackOf_fresh)
  have r: "aiFeedbackHistoryRef freshState \<noteq> None" by (simp add: freshState_def)
  have l: "length elevenCalls = 11" by (simp add: elevenCalls_def)
  have f: "filter (\<lambda>c. fst c = ustr ''P1'') elevenCalls = elevenCalls"
    by (simp add: elevenCalls_def)
  have "feedbackOf (recordFeedbacks freshState elevenCalls) (ustr ''P1'')
        = mostRecent 10 (map mkFeedback elevenCalls)"
    using recordFeedback_keeps_ten_most_recent[of freshState elevenCalls "ustr ''P1''"] h r f
    by (simp add: feedbackOf_fresh)
  also have "\<dots> = map mkFeedback (tl elevenCalls)"
    using l by (simp add: mostRecent_def drop_Suc drop_map)
  finally show ?thesis using h r l by blast
qed


section \<open>The resolution chain\<close>

lemma overrideFor_exists:
  assumes "snsReviewOverridesRef st = Some ovs" "v \<in> set ovs" "ovProductCode v = pc"
  shows "\<exists>ov \<in> set ovs. ovProductCode ov = pc \<and> overrideFor st pc = Some ov"
proof -
  have "find (\<lambda>v. ovProductCode v = pc) ovs \<noteq> None"
    using assms(2,3) by (auto simp: find_None_iff)
  then obtain ov where f: "find (\<lambda>v. ovProductCode v = pc) ovs = Some ov" by auto
  then have "ov \<in> set ovs \<and> ovProductCode ov = pc"
    by (auto simp: find_Some_iff)
  then show ?thesis using f assms(1) by (auto simp: overrideFor_def)
qed

text \<open>
  Claim C1. If the override list holds a record for the product, \<open>getSummary\<close> returns the
  payload built from the first such record, whatever the environment (provider setting,
  client, clock, reply), the cache, the insights and the reviews are, and leaves the state
  as it was (no request is sent). The payload carries the provider tag \<open>override\<close> and the
  override's summary, and its hashtags and sentiment where the override has them.
\<close>

theorem getSummary_override_wins:
  assumes "snsReviewOverridesRef st = Some ovs" "v \<in> set ovs" "ovProductCode v = pc"
  shows "\<exists>ov \<in> set ovs. ovProductCode ov = pc \<and> overrideFor st pc = Some ov \<and>
           getSummary e st pc approvedReviews kf = (overridePayload ov approvedReviews, st) \<and>
           rsSummary (overridePayload ov approvedReviews) = ovSummary ov \<and>
           (\<forall>hs. ovHashtags ov = Some hs \<longrightarrow> rsHashtags (overridePayload ov approvedReviews) = Some hs) \<and>
           (\<forall>s. ovSentiment ov = Some s \<longrightarrow> rsSentiment (overridePayload ov approvedReviews) = Some s) \<and>
           aiProvider (overridePayload ov approvedReviews) = ''override''"
proof -
  from overrideFor_exists[OF assms] obtain ov where
    ov: "ov \<in> set ovs" "ovProductCode ov = pc" "overrideFor st pc = Some ov" by blast
  have "getSummary e st pc approvedReviews kf = (overridePayload ov approvedReviews, st)"
    using ov(3) by (simp add: getSummary_def)
  then show ?thesis using ov by (auto simp: overridePayload_def)
qed

lemma fingerprint_perm:
  assumes "mset ids1 = mset ids2"
  shows "fingerprint ids1 = fingerprint ids2"
proof -
  have "mset (map showNat ids1) = mset (map showNat ids2)"
    using assms by (metis mset_map)
  then have "sort (map showNat ids1) = sort (map showNat ids2)"
    by (metis mset_sort properties_for_sort sorted_sort)
  then show ?thesis by (simp add: fingerprint_def)
qed

lemma getCachedAnalysis_hit:
  assumes "analysisCache st pc = Some c" "now e - timestamp c \<le> CACHE_TTL"
          "analyzedReviewIds c = fingerprint ids"
  shows "getCachedAnalysis e st pc ids = (Some (ceSummary c), st)"
  using assms by (simp add: getCachedAnalysis_def)

lemma getCachedAnalysis_Some:
  assumes "getCachedAnalysis e st pc ids = (Some a, st')"
  shows "st' = st \<and> (\<exists>c. analysisCache st pc = Some c \<and> now e - timestamp c \<le> CACHE_TTL \<and>
            analyzedReviewIds c = fingerprint ids \<and> ceSummary c = a)"
  using assms by (auto simp: getCachedAnalysis_def split: option.splits if_splits)

lemma getCachedAnalysis_aiCalls:
  "aiCalls (snd (getCachedAnalysis e st pc ids)) = aiCalls st"
  by (auto simp: getCachedAnalysis_def split: option.splits)

lemma updateInsights_keeps:
  "aiCalls (updateInsights e st rs pc obj) = aiCalls st \<and>
   analysisCache (updateInsights e st rs pc obj) = analysisCache st \<and>
   snsReviewOverridesRef (updateInsights e st rs pc obj) = snsReviewOverridesRef st"
  by (auto simp: updateInsights_def Let_def split: option.splits)

lemma analyzeWithClaude_Inr:
  assumes "analyzeWithClaude e st rs pc = (Inr r, st')"
  shows "aiProvider r = ''claude'' \<and> aiCalls st' = aiCalls st + 1 \<and>
         (\<exists>c. analysisCache st' pc = Some c \<and> timestamp c = completedAt e \<and>
              analyzedReviewIds c = fingerprint (map rid rs)) \<and>
         snsReviewOverridesRef st' = snsReviewOverridesRef st"
  using assms
  by (auto simp: analyzeWithClaude_def Let_def updateInsights_keeps
      split: if_splits ai_reply.splits ai_value.splits)

lemma fallbackSteps_provider:
  "aiProvider (fallbackSteps st pc rs kf) \<noteq> ''claude'' \<and>
   aiProvider (fallbackSteps st pc rs kf) \<noteq> ''claude-cached''"
  by (auto simp: fallbackSteps_def emptyPayload_def Let_def split: option.splits)

lemma overrideFor_cong:
  "snsReviewOverridesRef st' = snsReviewOverridesRef st \<Longrightarrow> overrideFor st' pc = overrideFor st pc"
  by (simp add: overrideFor_def)

lemma tryAnalyze_Some:
  assumes "tryAnalyze e st rs pc = (Some r, st')"
  shows "aiProvider r = ''claude'' \<and> aiCalls st' = aiCalls st + 1 \<and>
         (\<exists>c. analysisCache st' pc = Some c \<and> timestamp c = completedAt e \<and>
              analyzedReviewIds c = fingerprint (map rid rs)) \<and>
         snsReviewOverridesRef st' = snsReviewOverridesRef st"
proof -
  from assms have "analyzeWithClaude e st rs pc = (Inr r, st')"
    by (auto simp: tryAnalyze_def split: prod.splits sum.splits)
  then show ?thesis by (rule analyzeWithClaude_Inr)
qed

lemma claudeStep_Some:
  assumes "claudeStep e st pc rs = (Some r, st')"
  shows "(\<exists>c. analysisCache st' pc = Some c \<and> analyzedReviewIds c = fingerprint (map rid rs) \<and>
              (aiProvider r = ''claude'' \<longrightarrow> timestamp c = completedAt e)) \<and>
         aiCalls st' \<le> aiCalls st + 1 \<and> overrideFor st' pc = overrideFor st pc \<and> rs \<noteq> []"
proof -
  from assms have guard: "isClaudeAvailable e" "rs \<noteq> []"
    by (auto simp: claudeStep_def split: if_splits)
  obtain a stc where g: "getCachedAnalysis e st pc (map rid rs) = (a, stc)"
    by (cases "getCachedAnalysis e st pc (map rid rs)") auto
  have calls: "aiCalls stc = aiCalls st"
    using getCachedAnalysis_aiCalls[of e st pc "map rid rs"] g by simp
  have ovs: "snsReviewOverridesRef stc = snsReviewOverridesRef st"
    using g by (auto simp: getCachedAnalysis_def split: option.splits if_splits)
  have fresh: ?thesis if "tryAnalyze e stc rs pc = (Some r, st')"
    using tryAnalyze_Some[OF that] calls ovs guard by (auto simp: overrideFor_def)
  show ?thesis
  proof (cases a)
    case (Some cached)
    show ?thesis
    proof (cases "valueTruthy cached")
      case True
      from g Some getCachedAnalysis_Some[of e st pc "map rid rs" cached stc]
      obtain c where c: "stc = st" "analysisCache st pc = Some c"
          "analyzedReviewIds c = fingerprint (map rid rs)" by auto
      from assms g Some guard True have "st' = stc" "r = cachedPayload cached rs"
        by (auto simp: claudeStep_def)
      then show ?thesis using c guard by (auto simp: cachedPayload_def)
    next
      case False
      from assms g Some guard False have "tryAnalyze e stc rs pc = (Some r, st')"
        by (auto simp: claudeStep_def)
      then show ?thesis by (rule fresh)
    qed
  next
    case None
    from assms g None guard have "tryAnalyze e stc rs pc = (Some r, st')"
      by (auto simp: claudeStep_def)
    then show ?thesis by (rule fresh)
  qed
qed

text \<open>
  Where the cache does its work. Let a first call for a product without override return a
  Claude analysis (fresh, tag \<open>claude\<close>, or reused, tag \<open>claude-cached\<close>) and leave a truthy
  value in the cache, and let a second call follow with the same review ids in any order,
  Claude still available, starting no later than \<open>CACHE_TTL\<close> after the time stamp \<open>t\<close>
  of the cached analysis. Then the second call returns with the tag \<open>claude-cached\<close> and
  sends no request.
\<close>

lemma getSummary_reuses_truthy_analysis:
  assumes first: "getSummary e1 st pc rs1 kf1 = (r1, st1)"
      and noov: "overrideFor st pc = None"
      and ok: "aiProvider r1 = ''claude'' \<or> aiProvider r1 = ''claude-cached''"
      and same: "mset (map rid rs2) = mset (map rid rs1)"
      and avail: "isClaudeAvailable e2"
      and stamp: "cachedAt st1 pc = Some t"
      and truthy: "cachedTruthy st1 pc"
      and ttl: "now e2 - t \<le> CACHE_TTL"
      and second: "getSummary e2 st1 pc rs2 kf2 = (r2, st2)"
  shows "aiProvider r2 = ''claude-cached'' \<and> aiCalls st2 = aiCalls st1 \<and>
         aiCalls st1 \<le> aiCalls st + 1 \<and> (aiProvider r1 = ''claude'' \<longrightarrow> t = completedAt e1)"
proof -
  obtain x sx where cs: "claudeStep e1 st pc rs1 = (x, sx)"
    by (cases "claudeStep e1 st pc rs1") auto
  have "x \<noteq> None"
  proof
    assume "x = None"
    then have "r1 = fallbackSteps sx pc rs1 kf1"
      using first noov cs by (auto simp: getSummary_def)
    then show False using ok fallbackSteps_provider by blast
  qed
  then obtain r where x: "x = Some r" by auto
  then have r1: "r1 = r" "st1 = sx" using first noov cs by (auto simp: getSummary_def)
  from claudeStep_Some[of e1 st pc rs1 r sx] cs x r1
  obtain c where c: "analysisCache st1 pc = Some c"
      "analyzedReviewIds c = fingerprint (map rid rs1)"
      "aiProvider r1 = ''claude'' \<longrightarrow> timestamp c = completedAt e1"
      and calls: "aiCalls st1 \<le> aiCalls st + 1"
      and ov1: "overrideFor st1 pc = None" and ne: "rs1 \<noteq> []"
    using noov by auto
  have t: "timestamp c = t" using stamp c(1) by (simp add: cachedAt_def)
  have ne2: "rs2 \<noteq> []" using same ne by auto
  have fp: "analyzedReviewIds c = fingerprint (map rid rs2)"
    using c(2) fingerprint_perm[OF same] by simp
  have hit: "getCachedAnalysis e2 st1 pc (map rid rs2) = (Some (ceSummary c), st1)"
    using c(1) ttl t fp by (intro getCachedAnalysis_hit) auto
  have "valueTruthy (ceSummary c)" using truthy c(1) by (simp add: cachedTruthy_def)
  then have "claudeStep e2 st1 pc rs2 = (Some (cachedPayload (ceSummary c) rs2), st1)"
    using avail ne2 hit by (simp add: claudeStep_def)
  then have "r2 = cachedPayload (ceSummary c) rs2" "st2 = st1"
    using second ov1 by (auto simp: getSummary_def)
  then show ?thesis using calls c(3) t by (simp add: cachedPayload_def)
qed

theorem getSummary_override_wins_witness:
  "getSummary (claudeEnv 0 1 (AiJson (AiObject exampleAnalysis)))
      (freshState\<lparr>snsReviewOverridesRef := Some [exampleOverride]\<rparr>) (ustr ''P1'')
      [exampleReview 1] None
   = (overridePayload exampleOverride [exampleReview 1],
      freshState\<lparr>snsReviewOverridesRef := Some [exampleOverride]\<rparr>)"
  using getSummary_override_wins[of "freshState\<lparr>snsReviewOverridesRef := Some [exampleOverride]\<rparr>"
      "[exampleOverride]" exampleOverride "ustr ''P1''"
      "claudeEnv 0 1 (AiJson (AiObject exampleAnalysis))" "[exampleReview 1]" None]
  by (simp add: exampleOverride_def)

text \<open>
  Claim C5, as the code has it. With no override, no stored insight and no approved review,
  \<open>getSummary\<close> returns the empty payload and does not fail: an empty summary, no hashtags,
  provider tag \<open>none\<close>, and the sentiment 0/0 (not 50/50).
\<close>

theorem getSummary_empty_is_zero:
  assumes "overrideFor st pc = None" "getProductInsights st pc = None"
  shows "getSummary e st pc [] kf = (emptyPayload, st) \<and>
         rsSentiment emptyPayload = Some \<lparr>positiveRatio = 0, negativeRatio = 0\<rparr> \<and>
         rsHashtags emptyPayload = Some [] \<and> rsSummary emptyPayload = SStr [] \<and>
         aiProvider emptyPayload = ''none''"
  using assms
  by (simp add: getSummary_def claudeStep_def fallbackSteps_def emptyPayload_def)

theorem getSummary_empty_is_zero_witness:
  "overrideFor freshState (ustr ''P1'') = None \<and> getProductInsights freshState (ustr ''P1'') = None \<and>
   getSummary keywordEnv freshState (ustr ''P1'') [] None = (emptyPayload, freshState)"
  using getSummary_empty_is_zero[of freshState "ustr ''P1''" keywordEnv None]
  by (simp add: overrideFor_def getProductInsights_def freshState_def)

text \<open>
  Claim C5 as stated fails: on a fresh state without Claude and without reviews the
  sentiment returned is not 50/50.
\<close>

theorem getSummary_empty_not_fifty:
  "overrideFor freshState (ustr ''P1'') = None \<and> \<not> isClaudeAvailable keywordEnv \<and>
   getProductInsights freshState (ustr ''P1'') = None \<and>
   rsSentiment (fst (getSummary keywordEnv freshState (ustr ''P1'') [] None))
     \<noteq> Some \<lparr>positiveRatio = 50, negativeRatio = 50\<rparr>"
  by (simp add: getSummary_def claudeStep_def fallbackSteps_def emptyPayload_def
      overrideFor_def getProductInsights_def freshState_def isClaudeAvailable_def keywordEnv_def)

lemma afterFirstCall_provider: "aiProvider (fst afterFirstCall) = ''claude''"
  by (simp add: afterFirstCall_def getSummary_def overrideFor_def freshState_def claudeStep_def
      isClaudeAvailable_def claudeEnv_def getCachedAnalysis_def analyzeWithClaude_def tryAnalyze_def
      Let_def exampleAnalysis_def updateInsights_def)

lemma afterFirstCall_truthy: "cachedTruthy (snd afterFirstCall) (ustr ''P1'')"
  by (simp add: afterFirstCall_def getSummary_def overrideFor_def freshState_def claudeStep_def
      isClaudeAvailable_def claudeEnv_def getCachedAnalysis_def analyzeWithClaude_def tryAnalyze_def
      Let_def exampleAnalysis_def cachedTruthy_def updateInsights_def)

lemma afterFirstCall_cachedAt: "cachedAt (snd afterFirstCall) (ustr ''P1'') = Some 2000"
  by (simp add: afterFirstCall_def getSummary_def overrideFor_def freshState_def claudeStep_def
      isClaudeAvailable_def claudeEnv_def getCachedAnalysis_def analyzeWithClaude_def tryAnalyze_def
      Let_def exampleAnalysis_def cachedAt_def updateInsights_def)

lemma getSummary_reuses_truthy_analysis_example:
  "aiProvider (fst (getSummary (claudeEnv 1802000 1802001 AiFailure) (snd afterFirstCall) (ustr ''P1'')
       [exampleReview 2, exampleReview 1] None)) = ''claude-cached'' \<and>
   aiCalls (snd (getSummary (claudeEnv 1802000 1802001 AiFailure) (snd afterFirstCall) (ustr ''P1'')
       [exampleReview 2, exampleReview 1] None)) \<le> 1"
proof -
  let ?e2 = "claudeEnv 1802000 1802001 AiFailure"
  let ?rs2 = "[exampleReview 2, exampleReview 1]"
  obtain r2 st2 where second: "getSummary ?e2 (snd afterFirstCall) (ustr ''P1'') ?rs2 None = (r2, st2)"
    by (cases "getSummary ?e2 (snd afterFirstCall) (ustr ''P1'') ?rs2 None") auto
  have first: "getSummary (claudeEnv 1000 2000 (AiJson (AiObject exampleAnalysis))) freshState
      (ustr ''P1'') [exampleReview 1, exampleReview 2] None = (fst afterFirstCall, snd afterFirstCall)"
    by (simp add: afterFirstCall_def)
  have noov: "overrideFor freshState (ustr ''P1'') = None"
    by (simp add: overrideFor_def freshState_def)
  have same: "mset (map rid ?rs2) = mset (map rid [exampleReview 1, exampleReview 2])"
    by (simp add: exampleReview_def)
  have avail: "isClaudeAvailable ?e2" by (simp add: isClaudeAvailable_def claudeEnv_def)
  have ttl: "now ?e2 - 2000 \<le> CACHE_TTL" by (simp add: claudeEnv_def CACHE_TTL_def)
  have "aiProvider r2 = ''claude-cached'' \<and> aiCalls st2 = aiCalls (snd afterFirstCall) \<and>
        aiCalls (snd afterFirstCall) \<le> aiCalls freshState + 1"
    using getSummary_reuses_truthy_analysis[OF first noov _ same avail afterFirstCall_cachedAt
        afterFirstCall_truthy ttl second]
      afterFirstCall_provider by simp
  then show ?thesis using second by (simp add: freshState_def)
qed

text \<open>
  Claim C6 at its failing input. The collaborator answers with the JSON text \<open>0\<close>. The
  first call (two approved reviews, no override) takes this for an analysis: it returns
  with the tag \<open>claude\<close> and stores the value in the cache at time 2000. A second call with
  the same reviews at time 3000, well within \<open>CACHE_TTL\<close>, reads the cached value, finds it
  falsy at \<open>if (cached)\<close> and analyses again: it returns with the tag \<open>claude\<close>, not
  \<open>claude-cached\<close>, and two requests have been sent.
\<close>

theorem getSummary_falsy_reply_asks_again:
  "aiProvider (fst afterZeroReply) = ''claude'' \<and>
   aiCalls (snd afterZeroReply) = 1 \<and>
   cachedAt (snd afterZeroReply) (ustr ''P1'') = Some 2000 \<and>
   3000 - 2000 \<le> CACHE_TTL \<and>
   aiProvider (fst (getSummary (zeroReplyEnv 3000 4000) (snd afterZeroReply) (ustr ''P1'')
                      [exampleReview 1, exampleReview 2] None)) = ''claude'' \<and>
   aiCalls (snd (getSummary (zeroReplyEnv 3000 4000) (snd afterZeroReply) (ustr ''P1'')
                      [exampleReview 1, exampleReview 2] None)) = 2"
  by (simp add: afterZeroReply_def zeroReplyEnv_def getSummary_def overrideFor_def freshState_def
      claudeStep_def isClaudeAvailable_def claudeEnv_def getCachedAnalysis_def analyzeWithClaude_def
      tryAnalyze_def Let_def cachedAt_def CACHE_TTL_def)


section \<open>Search queries from hashtags\<close>








lemma newSet_snoc: "newSet (xs @ [x]) = setAdd (newSet xs) x"
  by (simp add: newSet_def)


lemma distinct_newSet: "distinct (newSet xs)"
  by (induction xs rule: rev_induct) (auto simp: newSet_snoc setAdd_def newSet_def)



















section \<open>Hashtag extraction\<close>

lemma tagUnit_not_space: "isTagUnit c \<Longrightarrow> \<not> isSpace c"
  by (auto simp: isTagUnit_def isSpace_def)

lemma trim_tag: "\<forall>u \<in> set s. isTagUnit u \<Longrightarrow> trim s = s"
proof -
  assume a: "\<forall>u \<in> set s. isTagUnit u"
  have dw: "dropWhile isSpace t = t" if "\<forall>u \<in> set t. isTagUnit u" for t
    using that by (cases t) (auto simp: tagUnit_not_space)
  have "dropWhile isSpace s = s" using a by (rule dw)
  moreover have "dropWhile isSpace (rev s) = rev s" using a by (intro dw) simp
  ultimately show ?thesis by (simp add: trim_def)
qed

lemma hashtagMatches_shape:
  "m \<in> set (hashtagMatches doc) \<Longrightarrow>
     \<exists>run. m = 35 # run \<and> run \<noteq> [] \<and> (\<forall>u \<in> set run. isTagUnit u)"
proof (induction doc rule: hashtagMatches.induct)
  case 1
  then show ?case by simp
next
  case (2 c cs)
  show ?case
  proof (cases "c = 35 \<and> takeWhile isTagUnit cs \<noteq> []")
    case True
    then have "m = 35 # takeWhile isTagUnit cs \<or> m \<in> set (hashtagMatches (dropWhile isTagUnit cs))"
      using 2(3) by auto
    then show ?thesis
    proof
      assume "m = 35 # takeWhile isTagUnit cs"
      then show ?thesis using True by (auto dest: set_takeWhileD)
    next
      assume "m \<in> set (hashtagMatches (dropWhile isTagUnit cs))"
      then show ?thesis using 2(1) True by simp
    qed
  next
    case False
    then have "m \<in> set (hashtagMatches cs)" using 2(3) by auto
    then show ?thesis using 2(2) False by simp
  qed
qed

lemma strip_match:
  assumes "m \<in> set (hashtagMatches doc)"
  shows "trim (remove1 35 m) = tl m"
proof -
  from hashtagMatches_shape[OF assms] obtain run where
    "m = 35 # run" "\<forall>u \<in> set run. isTagUnit u" by blast
  then show ?thesis by (simp add: trim_tag)
qed

text \<open>
  Claim C9, as the code has it. Without a detail blob, and when decoding fails, the extractor
  returns the empty list. Otherwise it returns the matches of the hashtag pattern in the
  decoded text, each without its leading \<open>#\<close> (what is left is a non-empty run of
  letters, digits, Hangul syllables and underscores), de-duplicated by exact comparison,
  first occurrences kept in order.
\<close>

theorem extractHashtagsFromProduct_exact_dedup:
  "(detailInfo p = None \<or> detailInfo p = Some [] \<longrightarrow> extractHashtagsFromProduct decode p = []) \<and>
   (detailInfo p = Some blob \<and> decode blob = None \<longrightarrow> extractHashtagsFromProduct decode p = []) \<and>
   (detailInfo p = Some blob \<and> blob \<noteq> [] \<and> decode blob = Some doc \<longrightarrow>
      extractHashtagsFromProduct decode p = newSet (map tl (hashtagMatches doc)) \<and>
      distinct (extractHashtagsFromProduct decode p) \<and>
      (\<forall>m \<in> set (hashtagMatches doc). hd m = 35 \<and> tl m \<noteq> [] \<and> (\<forall>u \<in> set (tl m). isTagUnit u)))"
proof -
  have strip: "map (\<lambda>tag. trim (remove1 35 tag)) (hashtagMatches doc) = map tl (hashtagMatches doc)"
    by (rule map_cong[OF refl]) (rule strip_match)
  have shape: "\<forall>m \<in> set (hashtagMatches doc). hd m = 35 \<and> tl m \<noteq> [] \<and> (\<forall>u \<in> set (tl m). isTagUnit u)"
    using hashtagMatches_shape[of _ doc] by fastforce
  have hit: "extractHashtagsFromProduct decode p = newSet (map tl (hashtagMatches doc))"
    if "detailInfo p = Some blob" "blob \<noteq> []" "decode blob = Some doc"
  proof -
    have "extractHashtagsFromProduct decode p
          = newSet (map (\<lambda>tag. trim (remove1 35 tag)) (hashtagMatches doc))"
      using that by (simp add: extractHashtagsFromProduct_def)
    then show ?thesis by (simp only: strip)
  qed
  have miss: "extractHashtagsFromProduct decode p = []"
    if "detailInfo p = None \<or> detailInfo p = Some [] \<or> (detailInfo p = Some blob \<and> decode blob = None)"
    using that by (auto simp: extractHashtagsFromProduct_def)
  show ?thesis
    using hit miss shape distinct_newSet[of "map tl (hashtagMatches doc)"] by auto
qed

theorem extractHashtagsFromProduct_exact_dedup_witness:
  "detailInfo cicaProduct = Some ''I0NpY2EgI2NpY2E='' \<and> failingDecode ''I0NpY2EgI2NpY2E='' = None \<and>
   extractHashtagsFromProduct failingDecode cicaProduct = [] \<and>
   decodesTo (ustr ''#cica #Cream #cica'') ''I0NpY2EgI2NpY2E='' = Some (ustr ''#cica #Cream #cica'') \<and>
   extractHashtagsFromProduct (decodesTo (ustr ''#cica #Cream #cica'')) cicaProduct
     = [ustr ''cica'', ustr ''Cream''] \<and>
   extractHashtagsFromProduct failingDecode (cicaProduct\<lparr>detailInfo := None\<rparr>) = []"
proof -
  have m: "hashtagMatches (ustr ''#cica #Cream #cica'') = [ustr ''#cica'', ustr ''#Cream'', ustr ''#cica'']"
    by (simp add: ustr_def isTagUnit_def)
  have d: "decodesTo (ustr ''#cica #Cream #cica'') ''I0NpY2EgI2NpY2E='' = Some (ustr ''#cica #Cream #cica'')"
    by (simp add: decodesTo_def)
  have i: "detailInfo cicaProduct = Some ''I0NpY2EgI2NpY2E=''" by (simp add: cicaProduct_def)
  have f: "failingDecode ''I0NpY2EgI2NpY2E='' = None" by (simp add: failingDecode_def)
  have 1: "extractHashtagsFromProduct failingDecode cicaProduct = []"
    using extractHashtagsFromProduct_exact_dedup[of cicaProduct failingDecode "''I0NpY2EgI2NpY2E=''"] i f
    by blast
  have 2: "extractHashtagsFromProduct (decodesTo (ustr ''#cica #Cream #cica'')) cicaProduct
           = newSet (map tl (hashtagMatches (ustr ''#cica #Cream #cica'')))"
    using extractHashtagsFromProduct_exact_dedup[of cicaProduct "decodesTo (ustr ''#cica #Cream #cica'')"
        "''I0NpY2EgI2NpY2E=''" "ustr ''#cica #Cream #cica''"] i d
    by simp
  have 3: "extractHashtagsFromProduct failingDecode (cicaProduct\<lparr>detailInfo := None\<rparr>) = []"
    using extractHashtagsFromProduct_exact_dedup[of "cicaProduct\<lparr>detailInfo := None\<rparr>" failingDecode]
    by simp
  have "newSet (map tl (hashtagMatches (ustr ''#cica #Cream #cica''))) = [ustr ''cica'', ustr ''Cream'']"
    unfolding m by (simp add: newSet_def setAdd_def ustr_def)
  then show ?thesis using 1 2 3 i d f by simp
qed

text \<open>
  Claim C9 as stated fails: de-duplication is exact, not case-insensitive. A blob that reads
  \<open>#Cica #cica\<close> yields two hashtags.
\<close>

theorem extractHashtagsFromProduct_keeps_both_cases:
  "extractHashtagsFromProduct (decodesTo (ustr ''#Cica #cica'')) cicaProduct
     = [ustr ''Cica'', ustr ''cica''] \<and>
   length (extractHashtagsFromProduct (decodesTo (ustr ''#Cica #cica'')) cicaProduct) \<noteq> 1"
  by (simp add: extractHashtagsFromProduct_def cicaProduct_def decodesTo_def ustr_def isTagUnit_def
      newSet_def setAdd_def trim_def isSpace_def)


section \<open>Match scores\<close>

lemma jsRound_percent:
  assumes "m \<le> n" "0 < n"
  shows "0 \<le> jsRound (fl (fl (of_nat m / of_nat n) * 100)) \<and>
         jsRound (fl (fl (of_nat m / of_nat n) * 100)) \<le> 100"
proof -
  let ?q = "fl (of_nat m / of_nat n)"
  let ?x = "fl (?q * 100)"
  have "(of_nat m :: rat) / of_nat n \<le> of_int 1" using assms by (simp add: divide_le_eq_1)
  then have "?q \<le> of_int 1" by (intro fl_le_int) simp_all
  then have q1: "?q \<le> 1" by simp
  have q0: "0 \<le> ?q" by (intro fl_nonneg) simp
  have "?q * 100 \<le> 1 * 100" using q1 by (intro mult_right_mono) simp_all
  then have "?q * 100 \<le> of_int 100" by simp
  moreover have p0: "0 \<le> ?q * 100" using q0 by simp
  ultimately have "?x \<le> of_int 100" by (intro fl_le_int) simp_all
  then have hi: "?x \<le> 100" by simp
  have lo: "0 \<le> ?x" using p0 by (rule fl_nonneg)
  have "\<lfloor>?x + 1 / 2\<rfloor> \<le> 100" using hi by (simp add: floor_le_iff)
  moreover have "0 \<le> \<lfloor>?x + 1 / 2\<rfloor>" using lo by (simp add: zero_le_floor)
  ultimately show ?thesis by (simp add: jsRound_def)
qed

lemma youtubeMatch_range:
  assumes "youtubeMatch hs p v = Some s"
  shows "0 \<le> s \<and> s \<le> 100"
proof -
  let ?st = "toLowerCase (vTitle v @ ustr '' '' @ vDescription v)"
  let ?m = "filter (\<lambda>tag. js_includes ?st (toLowerCase tag)) hs"
  show ?thesis
  proof (cases "length hs > 0 \<and> length ?m > 0")
    case True
    then have "s = jsRound (fl (fl (of_nat (length ?m) / of_nat (length hs)) * 100))"
      using assms by (simp add: youtubeMatch_def Let_def)
    moreover have "length ?m \<le> length hs" by simp
    ultimately show ?thesis using True jsRound_percent[of "length ?m" "length hs"] by blast
  next
    case False
    then have "s = 80" using assms by (auto simp: youtubeMatch_def Let_def split: if_splits)
    then show ?thesis by simp
  qed
qed

lemma calculateMatchScore_range:
  "0 \<le> calculateMatchScore po p hs \<and> calculateMatchScore po p hs \<le> 100"
proof -
  have "min (int k * 20) 60 \<le> 60 \<and> 0 \<le> min (int k * 20) 60" for k by simp
  then show ?thesis
    unfolding calculateMatchScore_def Let_def
    by (smt (verit, best))
qed

text \<open>
  Claim C7. A score produced by the YouTube policy (the rounded share of matched hashtags in
  percent, or the fixed 80 of a product-name match) lies between 0 and 100, and so does the
  weighted sum that \<open>calculateMatchScore\<close> gives an Instagram post.
\<close>

theorem matchScore_within_0_100:
  "(youtubeMatch hs p v = Some s \<longrightarrow> 0 \<le> s \<and> s \<le> 100) \<and>
   0 \<le> calculateMatchScore po p hs \<and> calculateMatchScore po p hs \<le> 100"
  using youtubeMatch_range calculateMatchScore_range by blast

lemma cicaVideo_score:
  "youtubeMatch [ustr ''meebak'', ustr ''cica'', ustr ''cream''] creamProduct cicaVideo = Some 33"
  by (simp add: youtubeMatch_def Let_def cicaVideo_def creamProduct_def ustr_def toLowerCase_def
      toLowerUnit_def startsWith_def jsRound_def fl_eval)

theorem matchScore_within_0_100_witness:
  "youtubeMatch [ustr ''meebak'', ustr ''cica'', ustr ''cream''] creamProduct cicaVideo = Some 33 \<and>
   (0::int) \<le> 33 \<and> (33::int) \<le> 100"
  using matchScore_within_0_100[of "[ustr ''meebak'', ustr ''cica'', ustr ''cream'']"
      creamProduct cicaVideo 33] cicaVideo_score
  by simp


section \<open>Collection never stores a key twice\<close>




























section \<open>Dynamic keywords\<close>

lemma countWord_short: "length w < 3 \<Longrightarrow> countWord fq w = fq"
  by (simp add: countWord_def)

lemma bumpWord_keys: "fst ` set (bumpWord fq w) = insert w (fst ` set fq)"
  by (induction fq w rule: bumpWord.induct) auto

lemma countWord_keys:
  "fst ` set (countWord fq w) \<subseteq> fst ` set fq \<union> {w'. w' = w \<and> 3 \<le> length w}"
  by (auto simp: countWord_def bumpWord_keys)

lemma foldl_countWord_long:
  assumes "\<forall>w \<in> fst ` set fq. 3 \<le> length w"
  shows "\<forall>w \<in> fst ` set (foldl countWord fq ws). 3 \<le> length w"
  using assms
proof (induction ws arbitrary: fq)
  case Nil
  then show ?case by simp
next
  case (Cons x xs)
  have "\<forall>w \<in> fst ` set (countWord fq x). 3 \<le> length w"
    using Cons.prems countWord_keys[of fq x] by blast
  then show ?case using Cons.IH by simp
qed

lemma wordFrequency_long:
  assumes "\<forall>w \<in> fst ` set fq. 3 \<le> length w"
  shows "\<forall>w \<in> fst ` set (foldl (\<lambda>fq r. foldl countWord fq (wordMatches (toLowerCase (reviewText r)))) fq reviews).
           3 \<le> length w"
  using assms
proof (induction reviews arbitrary: fq)
  case Nil
  then show ?case by simp
next
  case (Cons r rs)
  have "\<forall>w \<in> fst ` set (foldl countWord fq (wordMatches (toLowerCase (reviewText r)))). 3 \<le> length w"
    using Cons.prems by (rule foldl_countWord_long)
  then show ?case using Cons.IH by simp
qed

lemma extractDynamicKeywords_long:
  assumes "k \<in> set (extractDynamicKeywords reviews)"
  shows "3 \<le> length (dkKeyword k)"
proof -
  let ?freq = "foldl (\<lambda>fq r. foldl countWord fq (wordMatches (toLowerCase (reviewText r)))) [] reviews"
  have "k \<in> set (map (\<lambda>(w, n, boost).
           \<lparr>dkKeyword = w, dkCount = n, dkScore = n * boost, isBoosted = (boost > 1)\<rparr>) ?freq)"
    using assms unfolding extractDynamicKeywords_def Let_def
    by (auto dest!: in_set_takeD)
  then obtain w n boost where "(w, n, boost) \<in> set ?freq" "dkKeyword k = w" by auto
  moreover have "\<forall>w \<in> fst ` set ?freq. 3 \<le> length w"
    by (rule wordFrequency_long) simp
  ultimately show ?thesis by force
qed

lemma moisture_tokens:
  "wordMatches (toLowerCase (reviewText (textReview 7 (moisture @ ustr '' '' @ moisture))))
   = [moisture, moisture]"
  by (simp add: reviewText_def textReview_def moisture_def ustr_def toLowerCase_def toLowerUnit_def
      isLowerLatin_def isHangul_def)

lemma cream_tokens:
  "wordMatches (toLowerCase (reviewText (textReview 7 (moistureCream @ ustr '' '' @ moistureCream))))
   = [moistureCream, moistureCream]"
  by (simp add: reviewText_def textReview_def moistureCream_def ustr_def toLowerCase_def toLowerUnit_def
      isLowerLatin_def isHangul_def)

lemma cream_not_stop: "moistureCream \<notin> set STOP_WORDS"
  by (simp add: STOP_WORDS_def moistureCream_def ustr_def)

lemma cream_not_boost: "moistureCream \<notin> set BEAUTY_BOOST_WORDS"
  by (simp add: BEAUTY_BOOST_WORDS_def moistureCream_def ustr_def)

lemma extractDynamicKeywords_keeps_longer_word:
  "extractDynamicKeywords [textReview 7 (moistureCream @ ustr '' '' @ moistureCream)]
   = [\<lparr>dkKeyword = moistureCream, dkCount = 2, dkScore = 2, isBoosted = False\<rparr>]"
proof -
  have c: "moistureCream \<noteq> ustr ''constructor''" "\<not> length moistureCream < 3"
    by (simp_all add: moistureCream_def ustr_def)
  have "foldl countWord [] [moistureCream, moistureCream] = [(moistureCream, 2, 1)]"
    by (simp add: countWord_def cream_not_stop cream_not_boost c)
  then show ?thesis by (simp add: extractDynamicKeywords_def cream_tokens)
qed

text \<open>
  What the miner does deliver: at most 30 keywords, by descending score, each counted at
  least twice, none a stop word, the score being the count, doubled for words of the boost
  set.
\<close>

lemma wellCountedD:
  assumes "wellCounted fq" "(w, n, boost) \<in> set fq"
  shows "w \<notin> set STOP_WORDS \<and> boost = (if w \<in> set BEAUTY_BOOST_WORDS then 2 else 1)"
proof -
  have "\<forall>x \<in> set fq. case x of (w, n, boost) \<Rightarrow> w \<notin> set STOP_WORDS \<and>
       boost = (if w \<in> set BEAUTY_BOOST_WORDS then 2 else 1)"
    using assms(1) by (simp add: wellCounted_def list_all_iff)
  then show ?thesis using assms(2) by fastforce
qed

lemma bumpWord_wellCounted:
  "wellCounted fq \<Longrightarrow> w \<notin> set STOP_WORDS \<Longrightarrow> wellCounted (bumpWord fq w)"
  by (induction fq w rule: bumpWord.induct) (auto simp: wellCounted_def)

lemma countWord_wellCounted: "wellCounted fq \<Longrightarrow> wellCounted (countWord fq w)"
  by (simp add: countWord_def bumpWord_wellCounted)

lemma foldl_countWord_wellCounted: "wellCounted fq \<Longrightarrow> wellCounted (foldl countWord fq ws)"
  by (induction ws arbitrary: fq) (simp_all add: countWord_wellCounted)

lemma wordFrequency_wellCounted:
  "wellCounted fq \<Longrightarrow>
   wellCounted (foldl (\<lambda>fq r. foldl countWord fq (wordMatches (toLowerCase (reviewText r)))) fq reviews)"
  by (induction reviews arbitrary: fq) (simp_all add: foldl_countWord_wellCounted)



lemma extractDynamicKeywords_shape:
  "length (extractDynamicKeywords reviews) \<le> 30 \<and>
   sorted (map (\<lambda>k. - int (dkScore k)) (extractDynamicKeywords reviews)) \<and>
   list_all (\<lambda>k. 2 \<le> dkCount k \<and> dkKeyword k \<notin> set STOP_WORDS \<and>
                 isBoosted k = (dkKeyword k \<in> set BEAUTY_BOOST_WORDS) \<and>
                 dkScore k = (if isBoosted k then 2 * dkCount k else dkCount k))
            (extractDynamicKeywords reviews)"
proof -
  let ?fq = "foldl (\<lambda>fq r. foldl countWord fq (wordMatches (toLowerCase (reviewText r)))) [] reviews"
  let ?mk = "\<lambda>(w, n, boost). \<lparr>dkKeyword = w, dkCount = n, dkScore = n * boost, isBoosted = (boost > 1)\<rparr>"
  let ?P = "\<lambda>k. dkKeyword k \<notin> set STOP_WORDS \<and>
                 isBoosted k = (dkKeyword k \<in> set BEAUTY_BOOST_WORDS) \<and>
                 dkScore k = (if isBoosted k then 2 * dkCount k else dkCount k)"
  let ?sorted = "sort_key (\<lambda>k. - int (dkScore k)) (filter (\<lambda>k. dkCount k \<ge> 2) (map ?mk ?fq))"
  have res: "extractDynamicKeywords reviews = take 30 ?sorted"
    by (simp only: extractDynamicKeywords_def Let_def)
  have "wellCounted ?fq" by (rule wordFrequency_wellCounted) (simp add: wellCounted_def)
  then have wc: "wellCounted ?fq" .
  have all: "\<forall>k \<in> set (map ?mk ?fq). ?P k"
  proof
    fix k assume "k \<in> set (map ?mk ?fq)"
    then obtain x where x: "x \<in> set ?fq" "k = ?mk x" by (auto simp only: set_map image_iff)
    obtain w n boost where xw: "x = (w, n, boost)" by (cases x) auto
    have in_fq: "(w, n, boost) \<in> set ?fq" using x(1) xw by simp
    have k: "k = \<lparr>dkKeyword = w, dkCount = n, dkScore = n * boost, isBoosted = (boost > 1)\<rparr>"
      using x(2) xw by simp
    from wellCountedD[OF wc in_fq]
    have st: "w \<notin> set STOP_WORDS" and bo: "boost = (if w \<in> set BEAUTY_BOOST_WORDS then 2 else 1)"
      by blast+
    show "?P k"
    proof (cases "w \<in> set BEAUTY_BOOST_WORDS")
      case True
      then have "boost = 2" using bo by simp
      then show ?thesis unfolding k using st True by simp
    next
      case False
      then have "boost = 1" using bo by simp
      then show ?thesis unfolding k using st False by simp
    qed
  qed
  have allk: "\<forall>k \<in> set (take 30 ?sorted). 2 \<le> dkCount k \<and> ?P k"
  proof
    fix k assume "k \<in> set (take 30 ?sorted)"
    then have "k \<in> set ?sorted" by (rule in_set_takeD)
    then have "k \<in> set (filter (\<lambda>k. dkCount k \<ge> 2) (map ?mk ?fq))" by (simp only: set_sort)
    then have "k \<in> set (map ?mk ?fq) \<and> 2 \<le> dkCount k" by (simp only: set_filter mem_Collect_eq)
    then show "2 \<le> dkCount k \<and> ?P k" using all by blast
  qed
  have srt: "sorted (map (\<lambda>k. - int (dkScore k)) (take 30 ?sorted))"
  proof -
    have "sorted (map (\<lambda>k. - int (dkScore k)) ?sorted)" by (rule sorted_sort_key)
    then have "sorted (take 30 (map (\<lambda>k. - int (dkScore k)) ?sorted))" by (rule sorted_wrt_take)
    then show ?thesis by (simp only: take_map)
  qed
  have len: "length (take 30 ?sorted) \<le> 30" by (simp only: length_take min.cobounded2)
  show ?thesis unfolding res list_all_iff using len srt allk by (intro conjI)
qed

text \<open>
  Claim C8 at its failing input. A review whose text repeats a word of two Hangul syllables:
  the tokenizer does yield the word, twice, as the comment on the pattern announces
  (Korean from two characters on), but the length test that follows drops every token
  shorter than three units, so the word is not in the output although it occurs twice.
  (\<open>extractDynamicKeywords_long\<close> shows this for all inputs; a word of four syllables is
  kept, \<open>extractDynamicKeywords_keeps_longer_word\<close>; \<open>extractDynamicKeywords_shape\<close> has the
  parts of the claim that hold.)
\<close>

theorem extractDynamicKeywords_drops_two_syllable_word:
  "wordMatches (toLowerCase (reviewText (textReview 7 (moisture @ ustr '' '' @ moisture))))
     = [moisture, moisture] \<and>
   length moisture = 2 \<and> list_all isHangul moisture \<and>
   extractDynamicKeywords [textReview 7 (moisture @ ustr '' '' @ moisture)] = []"
proof -
  have "length moisture < 3" by (simp add: moisture_def)
  then have "foldl countWord [] [moisture, moisture] = []" by (simp add: countWord_short)
  then have "extractDynamicKeywords [textReview 7 (moisture @ ustr '' '' @ moisture)] = []"
    by (simp add: extractDynamicKeywords_def moisture_tokens)
  then show ?thesis using moisture_tokens by (simp add: moisture_def isHangul_def)
qed


section \<open>Sentiment ratios\<close>

lemma found_amazing:
  "extractKeywords sentimentKeywords (reviewText (textReview n (ustr ''amazing'')))
   = [(ustr ''amazing'', 1, Positive)]"
  by (simp add: extractKeywords_def sentimentKeywords_def reviewText_def textReview_def ustr_def
      toLowerCase_def toLowerUnit_def startsWith_def)

lemma found_staple:
  "extractKeywords sentimentKeywords (reviewText (textReview n (ustr ''staple'')))
   = [(ustr ''staple'', 1, Positive)]"
  by (simp add: extractKeywords_def sentimentKeywords_def reviewText_def textReview_def ustr_def
      toLowerCase_def toLowerUnit_def startsWith_def)

lemma found_fave:
  "extractKeywords sentimentKeywords (reviewText (textReview n (ustr ''fave'')))
   = [(ustr ''fave'', 1, Positive)]"
  by (simp add: extractKeywords_def sentimentKeywords_def reviewText_def textReview_def ustr_def
      toLowerCase_def toLowerUnit_def startsWith_def)

lemma found_waste:
  "extractKeywords sentimentKeywords (reviewText (textReview n (ustr ''waste'')))
   = [(ustr ''waste'', 1, Negative)]"
  by (simp add: extractKeywords_def sentimentKeywords_def reviewText_def textReview_def ustr_def
      toLowerCase_def toLowerUnit_def startsWith_def)

lemma found_overrated:
  "extractKeywords sentimentKeywords (reviewText (textReview n (ustr ''overrated'')))
   = [(ustr ''overrated'', 1, Negative)]"
  by (simp add: extractKeywords_def sentimentKeywords_def reviewText_def textReview_def ustr_def
      toLowerCase_def toLowerUnit_def startsWith_def)

lemma found_breakout:
  "extractKeywords sentimentKeywords (reviewText (textReview n (ustr ''breakout'')))
   = [(ustr ''breakout'', 1, Negative)]"
  by (simp add: extractKeywords_def sentimentKeywords_def reviewText_def textReview_def ustr_def
      toLowerCase_def toLowerUnit_def startsWith_def)

lemma found_irritation:
  "extractKeywords sentimentKeywords (reviewText (textReview n (ustr ''irritation'')))
   = [(ustr ''irritation'', 1, Negative)]"
  by (simp add: extractKeywords_def sentimentKeywords_def reviewText_def textReview_def ustr_def
      toLowerCase_def toLowerUnit_def startsWith_def)

lemma found_disappointed:
  "extractKeywords sentimentKeywords (reviewText (textReview n (ustr ''disappointed'')))
   = [(ustr ''disappointed'', 1, Negative)]"
  by (simp add: extractKeywords_def sentimentKeywords_def reviewText_def textReview_def ustr_def
      toLowerCase_def toLowerUnit_def startsWith_def)

lemma found_dupe:
  "extractKeywords sentimentKeywords (reviewText (textReview n (ustr ''dupe'')))
   = [(ustr ''dupe'', 6 / 5, Positive)]"
  by (simp add: extractKeywords_def sentimentKeywords_def reviewText_def textReview_def ustr_def
      toLowerCase_def toLowerUnit_def startsWith_def)

lemma found_meh:
  "extractKeywords sentimentKeywords (reviewText (textReview n (ustr ''meh'')))
   = [(ustr ''meh'', 4 / 5, Negative)]"
  by (simp add: extractKeywords_def sentimentKeywords_def reviewText_def textReview_def ustr_def
      toLowerCase_def toLowerUnit_def startsWith_def)

lemma found_broke_me_out:
  "extractKeywords sentimentKeywords (reviewText (textReview n (ustr ''broke me out'')))
   = [(ustr ''broke me out'', 6 / 5, Negative)]"
  by (simp add: extractKeywords_def sentimentKeywords_def reviewText_def textReview_def ustr_def
      toLowerCase_def toLowerUnit_def startsWith_def)

lemmas found_simps = found_amazing found_staple found_fave found_waste found_overrated
  found_breakout found_irritation found_disappointed found_dupe found_meh found_broke_me_out

lemma lower_ascii:
  "toLowerCase (ustr ''amazing'') = ustr ''amazing''" "toLowerCase (ustr ''staple'') = ustr ''staple''"
  "toLowerCase (ustr ''fave'') = ustr ''fave''" "toLowerCase (ustr ''waste'') = ustr ''waste''"
  "toLowerCase (ustr ''overrated'') = ustr ''overrated''"
  "toLowerCase (ustr ''breakout'') = ustr ''breakout''"
  "toLowerCase (ustr ''irritation'') = ustr ''irritation''"
  "toLowerCase (ustr ''disappointed'') = ustr ''disappointed''"
  "toLowerCase (ustr ''dupe'') = ustr ''dupe''" "toLowerCase (ustr ''meh'') = ustr ''meh''"
  "toLowerCase (ustr ''broke me out'') = ustr ''broke me out''"
  by (simp_all add: toLowerCase_def toLowerUnit_def ustr_def)

lemma ustr_eq_iff: "ustr a = ustr b \<longleftrightarrow> a = b"
proof -
  have "inj (of_char :: char \<Rightarrow> nat)" by (rule injI) simp
  then show ?thesis by (simp add: ustr_def inj_map_eq_map)
qed

text \<open>What \<open>aggregateKeywords\<close> makes of the four batches.\<close>

lemma aggregate_threeDistinct:
  "aggregateKeywords sentimentKeywords threeDistinct =
     [\<lparr>ksKeyword = ustr ''amazing'', ksCount = 1, ksTotalWeight = 1, ksSentiment = Positive\<rparr>,
      \<lparr>ksKeyword = ustr ''staple'', ksCount = 1, ksTotalWeight = 1, ksSentiment = Positive\<rparr>,
      \<lparr>ksKeyword = ustr ''fave'', ksCount = 1, ksTotalWeight = 1, ksSentiment = Positive\<rparr>,
      \<lparr>ksKeyword = ustr ''waste'', ksCount = 1, ksTotalWeight = 1, ksSentiment = Negative\<rparr>]"
  by (simp add: aggregateKeywords_def threeDistinct_def found_simps lower_ascii ustr_eq_iff fl_eval)

lemma aggregate_threeSame:
  "aggregateKeywords sentimentKeywords threeSame =
     [\<lparr>ksKeyword = ustr ''amazing'', ksCount = 3, ksTotalWeight = 3, ksSentiment = Positive\<rparr>,
      \<lparr>ksKeyword = ustr ''waste'', ksCount = 1, ksTotalWeight = 1, ksSentiment = Negative\<rparr>]"
  by (simp add: aggregateKeywords_def threeSame_def found_simps lower_ascii ustr_eq_iff fl_eval)

lemma aggregate_threeToFive:
  "aggregateKeywords sentimentKeywords threeToFive =
     [\<lparr>ksKeyword = ustr ''amazing'', ksCount = 1, ksTotalWeight = 1, ksSentiment = Positive\<rparr>,
      \<lparr>ksKeyword = ustr ''staple'', ksCount = 1, ksTotalWeight = 1, ksSentiment = Positive\<rparr>,
      \<lparr>ksKeyword = ustr ''fave'', ksCount = 1, ksTotalWeight = 1, ksSentiment = Positive\<rparr>,
      \<lparr>ksKeyword = ustr ''waste'', ksCount = 1, ksTotalWeight = 1, ksSentiment = Negative\<rparr>,
      \<lparr>ksKeyword = ustr ''overrated'', ksCount = 1, ksTotalWeight = 1, ksSentiment = Negative\<rparr>,
      \<lparr>ksKeyword = ustr ''breakout'', ksCount = 1, ksTotalWeight = 1, ksSentiment = Negative\<rparr>,
      \<lparr>ksKeyword = ustr ''irritation'', ksCount = 1, ksTotalWeight = 1, ksSentiment = Negative\<rparr>,
      \<lparr>ksKeyword = ustr ''disappointed'', ksCount = 1, ksTotalWeight = 1, ksSentiment = Negative\<rparr>]"
  by (simp add: aggregateKeywords_def threeToFive_def found_simps lower_ascii ustr_eq_iff fl_eval)

lemma aggregate_unequalWeights:
  "aggregateKeywords sentimentKeywords unequalWeights =
     [\<lparr>ksKeyword = ustr ''dupe'', ksCount = 1, ksTotalWeight = fl (6 / 5), ksSentiment = Positive\<rparr>,
      \<lparr>ksKeyword = ustr ''meh'', ksCount = 1, ksTotalWeight = fl (4 / 5), ksSentiment = Negative\<rparr>,
      \<lparr>ksKeyword = ustr ''broke me out'', ksCount = 1, ksTotalWeight = fl (6 / 5),
       ksSentiment = Negative\<rparr>]"
  by (simp add: aggregateKeywords_def unequalWeights_def found_simps lower_ascii ustr_eq_iff fl_eval)

text \<open>The fields of the result, the local constants written out.\<close>

lemma calculateSentiment_fields:
  "positiveRatio (calculateSentiment stats) =
     jsRound (if fl (positiveScore stats + negativeScore stats) > 0
              then fl (fl (positiveScore stats / fl (positiveScore stats + negativeScore stats)) * 100)
              else 50)"
  "negativeRatio (calculateSentiment stats) =
     jsRound (fl (100 - (if fl (positiveScore stats + negativeScore stats) > 0
              then fl (fl (positiveScore stats / fl (positiveScore stats + negativeScore stats)) * 100)
              else 50)))"
  "positiveCount (calculateSentiment stats) = jsRound (positiveScore stats)"
  "negativeCount (calculateSentiment stats) = jsRound (negativeScore stats)"
  "totalMentions (calculateSentiment stats) = sum_list (map ksCount stats)"
  by (simp_all add: calculateSentiment_def Let_def)

text \<open>
  Without a positive or negative keyword both scores are 0 and the ratios are 50 and 50.
\<close>

lemma score_without_signal:
  assumes "list_all (\<lambda>kw. ksSentiment kw = Neutral) stats" "pol \<noteq> Neutral"
  shows "foldl (addScore pol) acc stats = acc"
  using assms by (induction stats arbitrary: acc) (simp_all add: addScore_def)

lemma calculateSentiment_no_signal:
  assumes "list_all (\<lambda>kw. ksSentiment kw = Neutral) stats"
  shows "positiveRatio (calculateSentiment stats) = 50 \<and>
         negativeRatio (calculateSentiment stats) = 50"
proof -
  have "positiveScore stats = 0" "negativeScore stats = 0"
    using score_without_signal[OF assms, of Positive 0] score_without_signal[OF assms, of Negative 0]
    by (simp_all add: positiveScore_def negativeScore_def)
  then show ?thesis
    by (simp add: calculateSentiment_fields jsRound_def fl_whole floor_eq_iff)
qed

text \<open>
  Three positive keywords and one negative keyword of weight 1, each mentioned in one
  review, give 75 and 25.
\<close>

lemma calculateSentiment_threeDistinct:
  "positiveRatio (calculateSentiment (aggregateKeywords sentimentKeywords threeDistinct)) = 75 \<and>
   negativeRatio (calculateSentiment (aggregateKeywords sentimentKeywords threeDistinct)) = 25"
  by (simp add: aggregate_threeDistinct calculateSentiment_fields positiveScore_def negativeScore_def
      addScore_def jsRound_def fl_eval)

text \<open>
  The quotient is that of the doubles: with the weights 1.2 against 0.8 and 1.2 the exact
  share is 37.5 percent, the computed one is just below it, and the rounded one is 37.
\<close>

lemma calculateSentiment_unequalWeights:
  "positiveRatio (calculateSentiment (aggregateKeywords sentimentKeywords unequalWeights)) = 37 \<and>
   negativeRatio (calculateSentiment (aggregateKeywords sentimentKeywords unequalWeights)) = 63"
  by (simp add: aggregate_unequalWeights calculateSentiment_fields positiveScore_def negativeScore_def
      addScore_def jsRound_def fl_eval)

text \<open>
  Claim C4 at its failing inputs. In \<open>threeSame\<close> three reviews mention the positive
  keyword \<open>amazing\<close> and one review the negative keyword \<open>waste\<close>, both of weight 1: three
  positive mentions against one negative. \<open>aggregateKeywords\<close> counts 3 mentions of total
  weight 3 for \<open>amazing\<close>, and \<open>calculateSentiment\<close> multiplies the two, so the positive score
  is 9 where there are 4 mentions in all, and the ratios are 90 and 10, not 75 and 25.
  In \<open>threeToFive\<close> three positive and five negative keywords of weight 1 are mentioned
  once each; the share is 37.5 percent, and the two ratios, rounded one by one, are 38 and
  63, where the claim has \<open>negativeRatio = 100 - positiveRatio\<close>.
\<close>

theorem calculateSentiment_three_to_one_gives_90_10:
  "positiveRatio (calculateSentiment (aggregateKeywords sentimentKeywords threeSame)) = 90 \<and>
   negativeRatio (calculateSentiment (aggregateKeywords sentimentKeywords threeSame)) = 10 \<and>
   positiveCount (calculateSentiment (aggregateKeywords sentimentKeywords threeSame)) = 9 \<and>
   negativeCount (calculateSentiment (aggregateKeywords sentimentKeywords threeSame)) = 1 \<and>
   totalMentions (calculateSentiment (aggregateKeywords sentimentKeywords threeSame)) = 4 \<and>
   positiveRatio (calculateSentiment (aggregateKeywords sentimentKeywords threeToFive)) = 38 \<and>
   negativeRatio (calculateSentiment (aggregateKeywords sentimentKeywords threeToFive)) = 63"
  by (simp add: aggregate_threeSame aggregate_threeToFive calculateSentiment_fields
      positiveScore_def negativeScore_def addScore_def jsRound_def fl_eval)

end
